theory Spec2Isabelle
  imports Main
begin

section \<open>JavaScript values\<close>

text \<open>
  The script \<open>infura-extract.js\<close> handles the provider's block records as plain JavaScript
  values: objects, arrays, strings, BigInts, booleans, \<open>null\<close> and \<open>undefined\<close>. An object
  is the list of its own properties in property order. Values of type Number (IEEE
  doubles) are left out of the model: under the provider library's default return format
  every numeric field of a block is a BigInt. Strings are lists of 8-bit characters.
\<close>

datatype jsval =
    JUndefined
  | JNull
  | JBool bool
  | JStr string
  | JBigInt int
  | JArray "jsval list"
  | JObject "(string \<times> jsval) list"

text \<open>A JSON document, as \<open>JSON.parse\<close> builds it before the reviver runs and as
  \<open>JSON.stringify\<close> renders it to text.\<close>

datatype json =
    JsonNull
  | JsonBool bool
  | JsonStr string
  | JsonArr "json list"
  | JsonObj "(string \<times> json) list"

text \<open>\<open>ToBoolean\<close>: the truthiness tested by \<open>if (v)\<close>, \<open>!v\<close> and \<open>v && ...\<close>.\<close>

fun truthy :: "jsval \<Rightarrow> bool" where
  "truthy JUndefined = False"
| "truthy JNull = False"
| "truthy (JBool b) = b"
| "truthy (JStr s) = (s \<noteq> [])"
| "truthy (JBigInt n) = (n \<noteq> 0)"
| "truthy (JArray xs) = True"
| "truthy (JObject kvs) = True"

text \<open>
  Property read \<open>v.k\<close> for the names the script reads (\<open>type\<close>, \<open>value\<close>, \<open>transactions\<close>,
  \<open>from\<close>, \<open>to\<close>) on a value other than \<open>null\<close> and \<open>undefined\<close>: an own property of an
  object, and \<open>undefined\<close> otherwise, since no prototype of a string, boolean, BigInt,
  array or plain object carries one of these names.
\<close>

fun get_prop :: "jsval \<Rightarrow> string \<Rightarrow> jsval" where
  "get_prop (JObject kvs) k = (case map_of kvs k of Some v \<Rightarrow> v | None \<Rightarrow> JUndefined)"
| "get_prop v k = JUndefined"

text \<open>\<open>typeof v === 'object'\<close>.\<close>

fun typeof_object :: "jsval \<Rightarrow> bool" where
  "typeof_object JNull = True"
| "typeof_object (JArray xs) = True"
| "typeof_object (JObject kvs) = True"
| "typeof_object v = False"

section \<open>Integers and their text\<close>

text \<open>The digit of a value below 16, lower case as \<open>toString\<close> and \<open>JSON.stringify\<close>
  write it; the callers pass \<open>n mod 10\<close>, \<open>n mod 16\<close> or a value they have compared.\<close>

definition digit_char :: "nat \<Rightarrow> char" where
  "digit_char d = ''0123456789abcdef'' ! d"

function dec_digits :: "nat \<Rightarrow> string" where
  "dec_digits n = (if n < 10 then [digit_char n] else dec_digits (n div 10) @ [digit_char (n mod 10)])"
  by pat_completeness auto
termination
  by (relation "measure id") auto

declare dec_digits.simps [simp del]

text \<open>\<open>BigInt.prototype.toString()\<close>: the exact decimal numeral, \<open>-\<close> in front of a
  negative one.\<close>

definition bigint_toString :: "int \<Rightarrow> string" where
  "bigint_toString n = (if n < 0 then CHR ''-'' # dec_digits (nat (- n)) else dec_digits (nat n))"

text \<open>The value of a digit in a radix up to 16.\<close>

definition digit_val :: "char \<Rightarrow> nat option" where
  "digit_val c = (let n = (of_char c :: nat) in
     if 48 \<le> n \<and> n \<le> 57 then Some (n - 48)
     else if 97 \<le> n \<and> n \<le> 102 then Some (n - 87)
     else if 65 \<le> n \<and> n \<le> 70 then Some (n - 55)
     else None)"

definition is_digit :: "nat \<Rightarrow> char \<Rightarrow> bool" where
  "is_digit R c = (case digit_val c of Some d \<Rightarrow> d < R | None \<Rightarrow> False)"

definition digits_value :: "nat \<Rightarrow> string \<Rightarrow> nat" where
  "digits_value R ds = foldl (\<lambda>acc c. case digit_val c of Some d \<Rightarrow> acc * R + d | None \<Rightarrow> acc) 0 ds"

text \<open>White space and line terminators among the 8-bit characters: TAB, LF, VT, FF, CR,
  SP and NBSP.\<close>

definition is_ws :: "char \<Rightarrow> bool" where
  "is_ws c = ((of_char c :: nat) \<in> {9, 10, 11, 12, 13, 32, 160})"

definition trim_start :: "string \<Rightarrow> string" where
  "trim_start s = dropWhile is_ws s"

definition trim :: "string \<Rightarrow> string" where
  "trim s = rev (dropWhile is_ws (rev (dropWhile is_ws s)))"

text \<open>
  \<open>StringToBigInt\<close>, the conversion \<open>BigInt(s)\<close> applies to a string: white space is
  trimmed on both sides; the empty text is 0; \<open>0x\<close>, \<open>0o\<close> and \<open>0b\<close> (either case) start
  an unsigned literal in radix 16, 8 and 2; otherwise the text is decimal digits after an
  optional sign. \<open>None\<close> is the SyntaxError.
\<close>

definition nondecimal_prefix :: "string \<Rightarrow> (nat \<times> string) option" where
  "nondecimal_prefix t = (case t of
     c0 # c1 # ds \<Rightarrow>
       (if c0 = CHR ''0'' \<and> (c1 = CHR ''x'' \<or> c1 = CHR ''X'') then Some (16, ds)
        else if c0 = CHR ''0'' \<and> (c1 = CHR ''o'' \<or> c1 = CHR ''O'') then Some (8, ds)
        else if c0 = CHR ''0'' \<and> (c1 = CHR ''b'' \<or> c1 = CHR ''B'') then Some (2, ds)
        else None)
   | _ \<Rightarrow> None)"

definition all_digits :: "nat \<Rightarrow> string \<Rightarrow> bool" where
  "all_digits R ds = (ds \<noteq> [] \<and> list_all (is_digit R) ds)"

definition StringToBigInt :: "string \<Rightarrow> int option" where
  "StringToBigInt str = (let t = trim str in
     if t = [] then Some 0
     else case nondecimal_prefix t of
       Some (R, ds) \<Rightarrow> (if all_digits R ds then Some (int (digits_value R ds)) else None)
     | None \<Rightarrow>
         (if hd t = CHR ''-'' then
            (if all_digits 10 (tl t) then Some (- int (digits_value 10 (tl t))) else None)
          else if hd t = CHR ''+'' then
            (if all_digits 10 (tl t) then Some (int (digits_value 10 (tl t))) else None)
          else
            (if all_digits 10 t then Some (int (digits_value 10 t)) else None)))"

text \<open>
  \<open>ToString\<close> of a value, as \<open>BigInt(v)\<close> needs it for an array argument:
  \<open>Array.prototype.join\<close> renders \<open>null\<close> and \<open>undefined\<close> elements as the empty string.
  A plain object is \<open>[object Object]\<close> unless it has an own property \<open>toString\<close>, which in
  a value built by \<open>JSON.parse\<close> is not callable and makes the conversion throw (\<open>None\<close>).
\<close>

fun ToString :: "jsval \<Rightarrow> string option"
  and join_elements :: "jsval list \<Rightarrow> string option"
  and join_element :: "jsval \<Rightarrow> string option" where
  "ToString JUndefined = Some ''undefined''"
| "ToString JNull = Some ''null''"
| "ToString (JBool b) = Some (if b then ''true'' else ''false'')"
| "ToString (JStr s) = Some s"
| "ToString (JBigInt n) = Some (bigint_toString n)"
| "ToString (JArray xs) = join_elements xs"
| "ToString (JObject kvs) =
     (if map_of kvs ''toString'' = None then Some ''[object Object]'' else None)"
| "join_elements [] = Some []"
| "join_elements [x] = join_element x"
| "join_elements (x # y # ys) =
     (case join_element x of None \<Rightarrow> None
      | Some s \<Rightarrow> (case join_elements (y # ys) of None \<Rightarrow> None
                  | Some r \<Rightarrow> Some (s @ '','' @ r)))"
| "join_element JUndefined = Some []"
| "join_element JNull = Some []"
| "join_element (JBool b) = ToString (JBool b)"
| "join_element (JStr s) = ToString (JStr s)"
| "join_element (JBigInt n) = ToString (JBigInt n)"
| "join_element (JArray xs) = ToString (JArray xs)"
| "join_element (JObject kvs) = ToString (JObject kvs)"

text \<open>The call \<open>BigInt(v)\<close>; \<open>None\<close> is a thrown TypeError or SyntaxError.\<close>

fun BigInt :: "jsval \<Rightarrow> int option" where
  "BigInt JUndefined = None"
| "BigInt JNull = None"
| "BigInt (JBool b) = Some (if b then 1 else 0)"
| "BigInt (JStr s) = StringToBigInt s"
| "BigInt (JBigInt n) = Some n"
| "BigInt (JArray xs) = (case ToString (JArray xs) of None \<Rightarrow> None | Some s \<Rightarrow> StringToBigInt s)"
| "BigInt (JObject kvs) = None"

section \<open>Serialization codec\<close>

text \<open>\<open>replacer(key, value)\<close>: a BigInt becomes an object with a marker.\<close>

definition replacer :: "string \<Rightarrow> jsval \<Rightarrow> jsval" where
  "replacer key v = (case v of
     JBigInt n \<Rightarrow> JObject [(''type'', JStr ''BigInt''), (''value'', JStr (bigint_toString n))]
   | _ \<Rightarrow> v)"

text \<open>\<open>reviver(key, value)\<close>: an object carrying the marker becomes \<open>BigInt(value.value)\<close>,
  which may throw (\<open>None\<close>).\<close>

definition reviver :: "string \<Rightarrow> jsval \<Rightarrow> jsval option" where
  "reviver key v =
     (if truthy v \<and> typeof_object v \<and> get_prop v ''type'' = JStr ''BigInt''
      then map_option JBigInt (BigInt (get_prop v ''value''))
      else Some v)"

text \<open>
  \<open>JSON.stringify(value, replacer)\<close> walks the value from the root (key \<open>""\<close>): at every
  property it calls the replacer and then renders what the replacer returned, descending
  into the properties of an object and the elements of an array (keys \<open>"0"\<close>, \<open>"1"\<close>, ...).
  A property whose value comes out as \<open>undefined\<close> is left out of an object and is
  \<open>null\<close> in an array. The walk is given here up to the JSON document; the document's
  text is the built-in's. A BigInt left after the replacer would make the built-in throw;
  \<open>replacer\<close> returns none, so that branch is never taken.
\<close>

fun weight :: "jsval \<Rightarrow> nat" where
  "weight (JBigInt n) = 5"
| "weight (JArray xs) = Suc (sum_list (map (\<lambda>x. Suc (weight x)) xs))"
| "weight (JObject kvs) = Suc (sum_list (map (\<lambda>(k, x). Suc (weight x)) kvs))"
| "weight v = 1"

function SerializeJSONProperty :: "string \<Rightarrow> jsval \<Rightarrow> json option"
  and SerializeJSONArray :: "nat \<Rightarrow> jsval list \<Rightarrow> json list"
  and SerializeJSONObject :: "(string \<times> jsval) list \<Rightarrow> (string \<times> json) list" where
  "SerializeJSONProperty key v =
     (case replacer key v of
        JUndefined \<Rightarrow> None
      | JNull \<Rightarrow> Some JsonNull
      | JBool b \<Rightarrow> Some (JsonBool b)
      | JStr s \<Rightarrow> Some (JsonStr s)
      | JBigInt n \<Rightarrow> None
      | JArray xs \<Rightarrow> Some (JsonArr (SerializeJSONArray 0 xs))
      | JObject kvs \<Rightarrow> Some (JsonObj (SerializeJSONObject kvs)))"
| "SerializeJSONArray i [] = []"
| "SerializeJSONArray i (x # xs) =
     (case SerializeJSONProperty (dec_digits i) x of None \<Rightarrow> JsonNull | Some d \<Rightarrow> d)
       # SerializeJSONArray (Suc i) xs"
| "SerializeJSONObject [] = []"
| "SerializeJSONObject ((k, x) # kvs) =
     (case SerializeJSONProperty k x of
        None \<Rightarrow> SerializeJSONObject kvs
      | Some d \<Rightarrow> (k, d) # SerializeJSONObject kvs)"
  by pat_completeness auto
termination
  by (relation "measure (\<lambda>a. case a of
         Inl (key, v) \<Rightarrow> 2 * weight v
       | Inr (Inl (i, xs)) \<Rightarrow> Suc (2 * sum_list (map (\<lambda>x. Suc (weight x)) xs))
       | Inr (Inr kvs) \<Rightarrow> Suc (2 * sum_list (map (\<lambda>(k, x). Suc (weight x)) kvs)))")
     (auto simp: replacer_def split: jsval.splits)

declare SerializeJSONProperty.simps [simp del]

text \<open>
  \<open>JSON.parse(text, reviver)\<close> builds the document and then walks it bottom-up: the
  properties of an object and the elements of an array are revived first, in order, then
  the reviver is called on the holder. A throwing reviver aborts the whole parse (\<open>None\<close>).
  This reviver never returns \<open>undefined\<close>, so the walk deletes no property.
\<close>

fun InternalizeJSONProperty :: "string \<Rightarrow> json \<Rightarrow> jsval option"
  and InternalizeArray :: "nat \<Rightarrow> json list \<Rightarrow> jsval list option"
  and InternalizeObject :: "(string \<times> json) list \<Rightarrow> (string \<times> jsval) list option" where
  "InternalizeJSONProperty key JsonNull = reviver key JNull"
| "InternalizeJSONProperty key (JsonBool b) = reviver key (JBool b)"
| "InternalizeJSONProperty key (JsonStr s) = reviver key (JStr s)"
| "InternalizeJSONProperty key (JsonArr ds) =
     (case InternalizeArray 0 ds of None \<Rightarrow> None | Some xs \<Rightarrow> reviver key (JArray xs))"
| "InternalizeJSONProperty key (JsonObj kds) =
     (case InternalizeObject kds of None \<Rightarrow> None | Some kvs \<Rightarrow> reviver key (JObject kvs))"
| "InternalizeArray i [] = Some []"
| "InternalizeArray i (d # ds) =
     (case InternalizeJSONProperty (dec_digits i) d of None \<Rightarrow> None
      | Some x \<Rightarrow> (case InternalizeArray (Suc i) ds of None \<Rightarrow> None | Some xs \<Rightarrow> Some (x # xs)))"
| "InternalizeObject [] = Some []"
| "InternalizeObject ((k, d) # kds) =
     (case InternalizeJSONProperty k d of None \<Rightarrow> None
      | Some x \<Rightarrow> (case InternalizeObject kds of None \<Rightarrow> None | Some kvs \<Rightarrow> Some ((k, x) # kvs)))"

text \<open>
  The two codec calls of the script: \<open>JSON.stringify(block, replacer)\<close> and
  \<open>JSON.parse(data, reviver)\<close>. The text of a document (\<open>render\<close>) and the reading of a text
  (\<open>scan\<close>, \<open>None\<close> for a SyntaxError) are the built-in's and are parameters here.
  \<open>JSON.stringify\<close> returns \<open>undefined\<close> (\<open>None\<close>) for a root that is \<open>undefined\<close>.
\<close>

definition JSON_stringify :: "(json \<Rightarrow> string) \<Rightarrow> jsval \<Rightarrow> string option" where
  "JSON_stringify render v = map_option render (SerializeJSONProperty [] v)"

definition JSON_parse :: "(string \<Rightarrow> json option) \<Rightarrow> string \<Rightarrow> jsval option" where
  "JSON_parse scan text = (case scan text of None \<Rightarrow> None | Some d \<Rightarrow> InternalizeJSONProperty [] d)"

text \<open>
  The text \<open>JSON.stringify\<close> writes for a document when no indentation is asked for:
  no white space, strings quoted with the short escapes, \<open>\u00XX\<close> for the other
  control characters.
\<close>

definition quote_char :: "char \<Rightarrow> string" where
  "quote_char c = (let n = (of_char c :: nat) in
     if n = 8 then [CHR 0x5C, CHR ''b'']
     else if n = 9 then [CHR 0x5C, CHR ''t'']
     else if n = 10 then [CHR 0x5C, CHR ''n'']
     else if n = 12 then [CHR 0x5C, CHR ''f'']
     else if n = 13 then [CHR 0x5C, CHR ''r'']
     else if n = 34 then [CHR 0x5C, CHR 0x22]
     else if n = 92 then [CHR 0x5C, CHR 0x5C]
     else if n < 32 then [CHR 0x5C, CHR ''u'', CHR ''0'', CHR ''0'', digit_char (n div 16), digit_char (n mod 16)]
     else [c])"

definition QuoteJSONString :: "string \<Rightarrow> string" where
  "QuoteJSONString s = CHR 0x22 # concat (map quote_char s) @ [CHR 0x22]"

fun json_text :: "json \<Rightarrow> string"
  and json_text_elements :: "json list \<Rightarrow> string"
  and json_text_members :: "(string \<times> json) list \<Rightarrow> string" where
  "json_text JsonNull = ''null''"
| "json_text (JsonBool b) = (if b then ''true'' else ''false'')"
| "json_text (JsonStr s) = QuoteJSONString s"
| "json_text (JsonArr ds) = ''['' @ json_text_elements ds @ '']''"
| "json_text (JsonObj kds) = ''{'' @ json_text_members kds @ ''}''"
| "json_text_elements [] = []"
| "json_text_elements [d] = json_text d"
| "json_text_elements (d # e # ds) = json_text d @ '','' @ json_text_elements (e # ds)"
| "json_text_members [] = []"
| "json_text_members [(k, d)] = QuoteJSONString k @ '':'' @ json_text d"
| "json_text_members ((k, d) # e # kds) =
     QuoteJSONString k @ '':'' @ json_text d @ '','' @ json_text_members (e # kds)"



text \<open>A reader of JSON text that knows one document; it stands for the built-in
  reader in worked examples.\<close>

definition scan_only :: "json \<Rightarrow> string \<Rightarrow> json option" where
  "scan_only d s = (if s = json_text d then Some d else None)"

definition example_tx :: "string \<Rightarrow> jsval \<Rightarrow> jsval" where
  "example_tx sender recipient = JObject
     [(''from'', JStr sender), (''to'', recipient),
      (''value'', JBigInt 123456789012345678901234567890), (''type'', JBigInt 2)]"

definition example_block :: "int \<Rightarrow> jsval list \<Rightarrow> jsval" where
  "example_block n txs = JObject [(''number'', JBigInt n), (''transactions'', JArray txs)]"

definition example_doc :: json where
  "example_doc = JsonObj
     [(''number'', JsonObj [(''type'', JsonStr ''BigInt''), (''value'', JsonStr ''100'')]),
      (''transactions'', JsonArr [JsonObj
         [(''from'', JsonStr ''0xaa''),
          (''value'', JsonObj [(''type'', JsonStr ''BigInt''), (''value'', JsonStr ''123456789012345678901234567890'')]),
          (''type'', JsonObj [(''type'', JsonStr ''BigInt''), (''value'', JsonStr ''2'')])]])]"


subsection \<open>What a round trip keeps\<close>

text \<open>
  \<open>marker_free\<close>: no object of the value has a property \<open>type\<close> equal to the string
  \<open>BigInt\<close>, which the reviver would take for a marker. \<open>as_persisted\<close>: the value as it
  is after a round trip, without the properties that are \<open>undefined\<close> and with \<open>null\<close> for
  the array elements that are. \<open>bigint_fields\<close>: the BigInt fields of a value, each with
  the path of property names and array indices that leads to it.
\<close>

fun marker_free :: "jsval \<Rightarrow> bool"
  and marker_free_elements :: "jsval list \<Rightarrow> bool"
  and marker_free_members :: "(string \<times> jsval) list \<Rightarrow> bool" where
  "marker_free (JArray xs) = marker_free_elements xs"
| "marker_free (JObject kvs) = ((''type'', JStr ''BigInt'') \<notin> set kvs \<and> marker_free_members kvs)"
| "marker_free JUndefined = True"
| "marker_free JNull = True"
| "marker_free (JBool b) = True"
| "marker_free (JStr s) = True"
| "marker_free (JBigInt n) = True"
| "marker_free_elements [] = True"
| "marker_free_elements (x # xs) = (marker_free x \<and> marker_free_elements xs)"
| "marker_free_members [] = True"
| "marker_free_members ((k, x) # kvs) = (marker_free x \<and> marker_free_members kvs)"

fun as_persisted :: "jsval \<Rightarrow> jsval"
  and persisted_elements :: "jsval list \<Rightarrow> jsval list"
  and persisted_members :: "(string \<times> jsval) list \<Rightarrow> (string \<times> jsval) list" where
  "as_persisted (JArray xs) = JArray (persisted_elements xs)"
| "as_persisted (JObject kvs) = JObject (persisted_members kvs)"
| "as_persisted JUndefined = JUndefined"
| "as_persisted JNull = JNull"
| "as_persisted (JBool b) = JBool b"
| "as_persisted (JStr s) = JStr s"
| "as_persisted (JBigInt n) = JBigInt n"
| "persisted_elements [] = []"
| "persisted_elements (x # xs) =
     (if x = JUndefined then JNull else as_persisted x) # persisted_elements xs"
| "persisted_members [] = []"
| "persisted_members ((k, x) # kvs) =
     (if x = JUndefined then persisted_members kvs else (k, as_persisted x) # persisted_members kvs)"

datatype step = Key string | Index nat

fun bigint_fields :: "jsval \<Rightarrow> (step list \<times> int) list"
  and fields_elements :: "nat \<Rightarrow> jsval list \<Rightarrow> (step list \<times> int) list"
  and fields_members :: "(string \<times> jsval) list \<Rightarrow> (step list \<times> int) list" where
  "bigint_fields (JBigInt n) = [([], n)]"
| "bigint_fields (JArray xs) = fields_elements 0 xs"
| "bigint_fields (JObject kvs) = fields_members kvs"
| "bigint_fields JUndefined = []"
| "bigint_fields JNull = []"
| "bigint_fields (JBool b) = []"
| "bigint_fields (JStr s) = []"
| "fields_elements i [] = []"
| "fields_elements i (x # xs) =
     map (\<lambda>(p, n). (Index i # p, n)) (bigint_fields x) @ fields_elements (Suc i) xs"
| "fields_members [] = []"
| "fields_members ((k, x) # kvs) =
     map (\<lambda>(p, n). (Key k # p, n)) (bigint_fields x) @ fields_members kvs"


subsection \<open>Decimal text\<close>

lemma below_ten: "(d::nat) < 10 \<Longrightarrow> d \<in> {0, 1, 2, 3, 4, 5, 6, 7, 8, 9}"
  by auto

lemma digit_val_digit_char: "d < 10 \<Longrightarrow> digit_val (digit_char d) = Some d"
  by (drule below_ten) (auto simp: digit_val_def digit_char_def Let_def)

lemma is_digit_digit_char: "d < 10 \<Longrightarrow> is_digit 10 (digit_char d)"
  by (simp add: is_digit_def digit_val_digit_char)

lemma dec_digits_nonempty: "dec_digits n \<noteq> []"
  by (subst dec_digits.simps) simp

lemma dec_digits_all: "list_all (is_digit 10) (dec_digits n)"
proof (induction n rule: dec_digits.induct)
  case (1 n)
  show ?case
  proof (cases "n < 10")
    case True
    then show ?thesis by (subst dec_digits.simps) (simp add: is_digit_digit_char)
  next
    case False
    with 1 show ?thesis by (subst dec_digits.simps) (simp add: is_digit_digit_char)
  qed
qed

lemma digits_value_snoc:
  "digits_value R (ds @ [c]) = (case digit_val c of Some d \<Rightarrow> digits_value R ds * R + d | None \<Rightarrow> digits_value R ds)"
  by (simp add: digits_value_def split: option.split)

lemma digits_value_dec_digits: "digits_value 10 (dec_digits n) = n"
proof (induction n rule: dec_digits.induct)
  case (1 n)
  show ?case
  proof (cases "n < 10")
    case True
    then show ?thesis
      by (subst dec_digits.simps) (simp add: digits_value_def digit_val_digit_char)
  next
    case False
    with 1 show ?thesis
      by (subst dec_digits.simps) (simp add: digits_value_snoc digit_val_digit_char)
  qed
qed

lemma is_digit_10_code:
  assumes "is_digit 10 c"
  shows "48 \<le> (of_char c :: nat) \<and> (of_char c :: nat) \<le> 57"
proof (rule ccontr)
  define n where "n = (of_char c :: nat)"
  assume "\<not> ?thesis"
  then have out: "\<not> (48 \<le> n \<and> n \<le> 57)" by (simp add: n_def)
  have "digit_val c = (if 97 \<le> n \<and> n \<le> 102 then Some (n - 87)
     else if 65 \<le> n \<and> n \<le> 70 then Some (n - 55) else None)"
    using out unfolding digit_val_def Let_def n_def by simp
  with assms show False
    by (cases "97 \<le> n \<and> n \<le> 102"; cases "65 \<le> n \<and> n \<le> 70") (auto simp: is_digit_def)
qed

lemma is_digit_not_ws: "is_digit 10 c \<Longrightarrow> \<not> is_ws c"
  by (drule is_digit_10_code) (auto simp: is_ws_def)

lemma trim_id: "s \<noteq> [] \<Longrightarrow> \<not> is_ws (hd s) \<Longrightarrow> \<not> is_ws (last s) \<Longrightarrow> trim s = s"
proof -
  assume a: "s \<noteq> []" "\<not> is_ws (hd s)" "\<not> is_ws (last s)"
  then have "dropWhile is_ws s = s" by (cases s) auto
  moreover have "dropWhile is_ws (rev s) = rev s" using a by (cases "rev s") (auto simp: last_rev hd_rev)
  ultimately show ?thesis by (simp add: trim_def)
qed


lemma hd_dec_digits_digit: "is_digit 10 (hd (dec_digits n))"
  using dec_digits_all [of n] dec_digits_nonempty [of n] by (cases "dec_digits n") auto

lemma last_dec_digits_digit: "is_digit 10 (last (dec_digits n))"
  using dec_digits_all [of n] dec_digits_nonempty [of n]
  by (metis last_in_set list_all_iff)

lemma digit_not_letter:
  assumes "is_digit 10 c"
  shows "c \<notin> {CHR ''x'', CHR ''X'', CHR ''o'', CHR ''O'', CHR ''b'', CHR ''B'', CHR ''-'', CHR ''+''}"
  using is_digit_10_code [OF assms] by auto

lemma nondecimal_prefix_digits:
  assumes "list_all (is_digit 10) t"
  shows "nondecimal_prefix t = None"
proof (cases t)
  case Nil
  then show ?thesis by (simp add: nondecimal_prefix_def)
next
  case (Cons c0 r)
  show ?thesis
  proof (cases r)
    case Nil
    with Cons show ?thesis by (simp add: nondecimal_prefix_def)
  next
    case (Cons c1 ds)
    with assms \<open>t = c0 # r\<close> have "is_digit 10 c1" by simp
    from digit_not_letter [OF this] show ?thesis
      using Cons \<open>t = c0 # r\<close> by (simp add: nondecimal_prefix_def)
  qed
qed

lemma nondecimal_prefix_minus: "nondecimal_prefix (CHR ''-'' # t) = None"
  by (auto simp: nondecimal_prefix_def split: list.splits)

lemma digit_not_sign: "is_digit 10 c \<Longrightarrow> c \<noteq> CHR ''-'' \<and> c \<noteq> CHR ''+''"
  using digit_not_letter [of c] by simp

lemma StringToBigInt_digits:
  "StringToBigInt (dec_digits n) = Some (int n)"
proof -
  let ?t = "dec_digits n"
  have ne: "?t \<noteq> []" by (rule dec_digits_nonempty)
  have tr: "trim ?t = ?t"
    by (rule trim_id [OF ne]) (simp_all add: is_digit_not_ws hd_dec_digits_digit last_dec_digits_digit)
  have sg: "hd ?t \<noteq> CHR ''-''" "hd ?t \<noteq> CHR ''+''"
    using digit_not_sign [OF hd_dec_digits_digit [of n]] by simp_all
  show ?thesis
    by (simp add: StringToBigInt_def tr ne nondecimal_prefix_digits dec_digits_all sg
        all_digits_def digits_value_dec_digits)
qed

lemma StringToBigInt_minus_digits:
  "StringToBigInt (CHR ''-'' # dec_digits n) = Some (- int n)"
proof -
  let ?t = "CHR ''-'' # dec_digits n"
  have "\<not> is_ws (CHR ''-'')" by (simp add: is_ws_def)
  moreover have "\<not> is_ws (last ?t)"
    using last_dec_digits_digit [of n] by (simp add: dec_digits_nonempty is_digit_not_ws)
  ultimately have tr: "trim ?t = ?t" by (intro trim_id) simp_all
  show ?thesis
    by (simp add: StringToBigInt_def tr nondecimal_prefix_minus dec_digits_all
        all_digits_def digits_value_dec_digits dec_digits_nonempty)
qed

lemma StringToBigInt_toString: "StringToBigInt (bigint_toString n) = Some n"
  by (simp add: bigint_toString_def StringToBigInt_digits StringToBigInt_minus_digits)

lemma Serialize_simps:
  "SerializeJSONProperty k JUndefined = None"
  "SerializeJSONProperty k JNull = Some JsonNull"
  "SerializeJSONProperty k (JBool b) = Some (JsonBool b)"
  "SerializeJSONProperty k (JStr s) = Some (JsonStr s)"
  "SerializeJSONProperty k (JArray xs) = Some (JsonArr (SerializeJSONArray 0 xs))"
  "SerializeJSONProperty k (JObject kvs) = Some (JsonObj (SerializeJSONObject kvs))"
  by (simp_all add: SerializeJSONProperty.simps replacer_def)

lemma Serialize_BigInt:
  "SerializeJSONProperty k (JBigInt n) =
     Some (JsonObj [(''type'', JsonStr ''BigInt''), (''value'', JsonStr (bigint_toString n))])"
  by (simp add: SerializeJSONProperty.simps [of k "JBigInt n"] replacer_def Serialize_simps)

lemma Internalize_BigInt:
  "InternalizeJSONProperty k (JsonObj [(''type'', JsonStr ''BigInt''), (''value'', JsonStr (bigint_toString n))])
     = Some (JBigInt n)"
  by (simp add: reviver_def StringToBigInt_toString)

lemma reviver_plain:
  "(''type'', JStr ''BigInt'') \<notin> set kvs \<Longrightarrow> reviver k (JObject kvs) = Some (JObject kvs)"
  by (auto simp: reviver_def dest: map_of_SomeD split: option.splits)

lemma reviver_array: "reviver k (JArray xs) = Some (JArray xs)"
  by (simp add: reviver_def)

lemma as_persisted_eq_marker: "as_persisted v = JStr s \<longleftrightarrow> v = JStr s"
  by (cases v) auto

lemma persisted_members_in:
  "(k, w) \<in> set (persisted_members kvs) \<Longrightarrow> \<exists>v. (k, v) \<in> set kvs \<and> w = as_persisted v"
proof (induction kvs)
  case Nil
  then show ?case by simp
next
  case (Cons kv kvs)
  obtain k' x where kv: "kv = (k', x)" by (cases kv)
  show ?case
  proof (cases "(k, w) \<in> set (persisted_members kvs)")
    case True
    with Cons.IH obtain v where "(k, v) \<in> set kvs" "w = as_persisted v" by blast
    then show ?thesis by auto
  next
    case False
    with Cons.prems kv have "k = k'" "w = as_persisted x" by (auto split: if_splits)
    then show ?thesis using kv by auto
  qed
qed

lemma persisted_members_marker:
  assumes "(''type'', JStr ''BigInt'') \<notin> set kvs"
  shows "(''type'', JStr ''BigInt'') \<notin> set (persisted_members kvs)"
proof
  assume "(''type'', JStr ''BigInt'') \<in> set (persisted_members kvs)"
  then obtain v where "(''type'', v) \<in> set kvs" "JStr ''BigInt'' = as_persisted v"
    using persisted_members_in by blast
  then show False using assms as_persisted_eq_marker [of v "''BigInt''"] by auto
qed

lemma roundtrip_walk:
  "marker_free x \<Longrightarrow> x \<noteq> JUndefined \<Longrightarrow>
     (\<exists>d. SerializeJSONProperty k x = Some d \<and> InternalizeJSONProperty k d = Some (as_persisted x))"
  "marker_free_elements xs \<Longrightarrow>
     InternalizeArray i (SerializeJSONArray i xs) = Some (persisted_elements xs)"
  "marker_free_members kvs \<Longrightarrow>
     InternalizeObject (SerializeJSONObject kvs) = Some (persisted_members kvs)"
proof (induction x and xs and kvs arbitrary: k and i rule: marker_free_marker_free_elements_marker_free_members.induct)
  case (1 xs)
  then show ?case by (simp add: Serialize_simps reviver_array)
next
  case (2 kvs)
  then show ?case by (simp add: Serialize_simps reviver_plain persisted_members_marker)
next
  case (7 n)
  show ?case using Internalize_BigInt [of k n] by (simp add: Serialize_BigInt del: InternalizeJSONProperty.simps)
next
  case (9 x xs)
  from 9 have tl: "InternalizeArray (Suc i) (SerializeJSONArray (Suc i) xs) = Some (persisted_elements xs)"
    by simp
  show ?case
  proof (cases "x = JUndefined")
    case True
    then show ?thesis using tl by (simp add: Serialize_simps reviver_def)
  next
    case False
    with 9 obtain d where "SerializeJSONProperty (dec_digits i) x = Some d"
      "InternalizeJSONProperty (dec_digits i) d = Some (as_persisted x)" by auto
    then show ?thesis using tl False by simp
  qed
next
  case (11 k' x kvs)
  from 11 have tl: "InternalizeObject (SerializeJSONObject kvs) = Some (persisted_members kvs)"
    by simp
  show ?case
  proof (cases "x = JUndefined")
    case True
    then show ?thesis using tl by (simp add: Serialize_simps)
  next
    case False
    with 11 obtain d where "SerializeJSONProperty k' x = Some d"
      "InternalizeJSONProperty k' d = Some (as_persisted x)" by auto
    then show ?thesis using tl False by simp
  qed
qed (simp_all add: Serialize_simps reviver_def)

lemma as_persisted_undefined: "as_persisted x = JUndefined \<longleftrightarrow> x = JUndefined"
  by (cases x) auto

lemma Serialize_persisted:
  "SerializeJSONProperty k (as_persisted x) = SerializeJSONProperty k x"
  "SerializeJSONArray i (persisted_elements xs) = SerializeJSONArray i xs"
  "SerializeJSONObject (persisted_members kvs) = SerializeJSONObject kvs"
proof (induction x and xs and kvs arbitrary: k and i rule: as_persisted_persisted_elements_persisted_members.induct)
  case (9 x xs)
  then show ?case by (cases "x = JUndefined") (simp_all add: Serialize_simps)
next
  case (11 k' x kvs)
  then show ?case by (cases "x = JUndefined") (simp_all add: Serialize_simps split: option.split)
qed (simp_all add: Serialize_simps)

lemma fields_persisted:
  "bigint_fields (as_persisted x) = bigint_fields x"
  "fields_elements i (persisted_elements xs) = fields_elements i xs"
  "fields_members (persisted_members kvs) = fields_members kvs"
  by (induction x and xs and kvs arbitrary: and i and rule: as_persisted_persisted_elements_persisted_members.induct)
     simp_all

lemma dec_digits_eval:
  "n < 10 \<Longrightarrow> dec_digits n = [digit_char n]"
  "10 \<le> n \<Longrightarrow> dec_digits n = dec_digits (n div 10) @ [digit_char (n mod 10)]"
  by (subst dec_digits.simps, simp)+

lemmas codec_eval = Serialize_simps Serialize_BigInt bigint_toString_def dec_digits_eval digit_char_def

lemma example_doc: "SerializeJSONProperty [] (example_block 100 [example_tx ''0xaa'' JUndefined]) = Some example_doc"
  by (simp add: example_block_def example_tx_def example_doc_def codec_eval)



text \<open>
  C1. Round trip of the codec. Let \<open>x\<close> be a block record: a value other than \<open>undefined\<close>
  none of whose objects carries the reviver's marker, and let the built-in reader read
  back the text the built-in writer wrote for it. Then \<open>JSON.stringify(x, replacer)\<close>
  gives a text, \<open>JSON.parse(text, reviver)\<close> gives a value \<open>y\<close>, every BigInt field of \<open>x\<close>
  is a BigInt field of \<open>y\<close> at the same path with the same value, hence the same decimal
  string, and encoding \<open>y\<close> gives the same text again. The integers go from \<open>int\<close> to
  decimal text and back; no other number type is involved.
\<close>

theorem codec_round_trip:
  assumes "marker_free x" and "x \<noteq> JUndefined"
    and "\<And>d. SerializeJSONProperty [] x = Some d \<Longrightarrow> scan (json_text d) = Some d"
  shows "\<exists>bytes y. JSON_stringify json_text x = Some bytes
           \<and> JSON_parse scan bytes = Some y
           \<and> y = as_persisted x
           \<and> bigint_fields y = bigint_fields x
           \<and> map (\<lambda>(p, n). (p, bigint_toString n)) (bigint_fields y)
               = map (\<lambda>(p, n). (p, bigint_toString n)) (bigint_fields x)
           \<and> JSON_stringify json_text y = Some bytes"
proof -
  from roundtrip_walk(1) [OF assms(1,2), of "[]"] obtain d where
    d: "SerializeJSONProperty [] x = Some d" "InternalizeJSONProperty [] d = Some (as_persisted x)"
    by blast
  have "JSON_stringify json_text x = Some (json_text d)"
    by (simp add: JSON_stringify_def d)
  moreover have "JSON_parse scan (json_text d) = Some (as_persisted x)"
    by (simp add: JSON_parse_def assms(3) [OF d(1)] d(2))
  moreover have "JSON_stringify json_text (as_persisted x) = Some (json_text d)"
    by (simp add: JSON_stringify_def Serialize_persisted d)
  ultimately show ?thesis by (simp add: fields_persisted)
qed


theorem codec_round_trip_witness:
  "marker_free (example_block 100 [example_tx ''0xaa'' JUndefined])
   \<and> example_block 100 [example_tx ''0xaa'' JUndefined] \<noteq> JUndefined
   \<and> SerializeJSONProperty [] (example_block 100 [example_tx ''0xaa'' JUndefined]) = Some example_doc
   \<and> scan_only example_doc (json_text example_doc) = Some example_doc
   \<and> (\<exists>bytes y. JSON_stringify json_text (example_block 100 [example_tx ''0xaa'' JUndefined]) = Some bytes
           \<and> JSON_parse (scan_only example_doc) bytes = Some y
           \<and> bigint_fields y = [([Key ''number''], 100),
                 ([Key ''transactions'', Index 0, Key ''value''], 123456789012345678901234567890),
                 ([Key ''transactions'', Index 0, Key ''type''], 2)]
           \<and> JSON_stringify json_text y = Some bytes)"
proof -
  let ?x = "example_block 100 [example_tx ''0xaa'' JUndefined]"
  have mf: "marker_free ?x" by (simp add: example_block_def example_tx_def)
  have nu: "?x \<noteq> JUndefined" by (simp add: example_block_def)
  have sc: "\<And>d. SerializeJSONProperty [] ?x = Some d \<Longrightarrow> scan_only example_doc (json_text d) = Some d"
    by (simp add: example_doc scan_only_def)
  have sc0: "scan_only example_doc (json_text example_doc) = Some example_doc"
    by (simp add: scan_only_def)
  have bf: "bigint_fields ?x = [([Key ''number''], 100),
                 ([Key ''transactions'', Index 0, Key ''value''], 123456789012345678901234567890),
                 ([Key ''transactions'', Index 0, Key ''type''], 2)]"
    by (simp add: example_block_def example_tx_def)
  have "\<exists>bytes y. JSON_stringify json_text ?x = Some bytes
           \<and> JSON_parse (scan_only example_doc) bytes = Some y
           \<and> y = as_persisted ?x
           \<and> bigint_fields y = bigint_fields ?x
           \<and> map (\<lambda>(p, n). (p, bigint_toString n)) (bigint_fields y)
               = map (\<lambda>(p, n). (p, bigint_toString n)) (bigint_fields ?x)
           \<and> JSON_stringify json_text y = Some bytes"
    by (rule codec_round_trip [OF mf nu]) (erule sc)
  then obtain bytes y where
    r: "JSON_stringify json_text ?x = Some bytes" "JSON_parse (scan_only example_doc) bytes = Some y"
       "bigint_fields y = bigint_fields ?x" "JSON_stringify json_text y = Some bytes"
    by (elim exE conjE) (rule that; assumption)
  from r(3) bf have r3: "bigint_fields y = [([Key ''number''], 100),
                 ([Key ''transactions'', Index 0, Key ''value''], 123456789012345678901234567890),
                 ([Key ''transactions'', Index 0, Key ''type''], 2)]" by simp
  have "\<exists>bytes y. JSON_stringify json_text ?x = Some bytes
           \<and> JSON_parse (scan_only example_doc) bytes = Some y
           \<and> bigint_fields y = [([Key ''number''], 100),
                 ([Key ''transactions'', Index 0, Key ''value''], 123456789012345678901234567890),
                 ([Key ''transactions'', Index 0, Key ''type''], 2)]
           \<and> JSON_stringify json_text y = Some bytes"
    using r(1) r(2) r3 r(4) by (intro exI conjI)
  with mf nu example_doc sc0 show ?thesis by (intro conjI)
qed

subsection \<open>The tagged form of a BigInt\<close>





lemma length_SerializeJSONArray: "length (SerializeJSONArray j xs) = length xs"
  by (induction xs arbitrary: j) simp_all






section \<open>The range argument\<close>

text \<open>\<open>String.prototype.toLowerCase\<close> on 8-bit characters: the letters A-Z and the
  upper-case letters of Latin-1.\<close>

definition toLowerCase_char :: "char \<Rightarrow> char" where
  "toLowerCase_char c =
     (case map_of (zip (''ABCDEFGHIJKLMNOPQRSTUVWXYZ'' @ [CHR 0xC0, CHR 0xC1, CHR 0xC2, CHR 0xC3, CHR 0xC4, CHR 0xC5, CHR 0xC6, CHR 0xC7, CHR 0xC8, CHR 0xC9, CHR 0xCA, CHR 0xCB, CHR 0xCC, CHR 0xCD, CHR 0xCE, CHR 0xCF, CHR 0xD0, CHR 0xD1, CHR 0xD2, CHR 0xD3, CHR 0xD4, CHR 0xD5, CHR 0xD6, CHR 0xD8, CHR 0xD9, CHR 0xDA, CHR 0xDB, CHR 0xDC, CHR 0xDD, CHR 0xDE])
                       (''abcdefghijklmnopqrstuvwxyz'' @ [CHR 0xE0, CHR 0xE1, CHR 0xE2, CHR 0xE3, CHR 0xE4, CHR 0xE5, CHR 0xE6, CHR 0xE7, CHR 0xE8, CHR 0xE9, CHR 0xEA, CHR 0xEB, CHR 0xEC, CHR 0xED, CHR 0xEE, CHR 0xEF, CHR 0xF0, CHR 0xF1, CHR 0xF2, CHR 0xF3, CHR 0xF4, CHR 0xF5, CHR 0xF6, CHR 0xF8, CHR 0xF9, CHR 0xFA, CHR 0xFB, CHR 0xFC, CHR 0xFD, CHR 0xFE])) c of
        Some l \<Rightarrow> l | None \<Rightarrow> c)"

definition toLowerCase :: "string \<Rightarrow> string" where
  "toLowerCase s = map toLowerCase_char s"

text \<open>
  A Number as the range parsing meets it: \<open>NaN\<close> or an integer. \<open>parseInt(s)\<close> with no
  radix skips leading white space, takes a sign, reads hexadecimal after \<open>0x\<close> and decimal
  otherwise, and stops at the first character that is not a digit; no digit at all is
  \<open>NaN\<close>. The integer is exact here; JavaScript rounds one beyond 2^53 to a double, far
  above any block number.
\<close>

datatype number = NaN | Num int

definition parseInt :: "string \<Rightarrow> number" where
  "parseInt s =
     (let S0 = trim_start s;
          neg = (S0 \<noteq> [] \<and> hd S0 = CHR ''-'');
          S1 = (if S0 \<noteq> [] \<and> (hd S0 = CHR ''+'' \<or> hd S0 = CHR ''-'') then tl S0 else S0);
          hex = (case S1 of c0 # c1 # r \<Rightarrow> c0 = CHR ''0'' \<and> (c1 = CHR ''x'' \<or> c1 = CHR ''X'') | _ \<Rightarrow> False);
          R = (if hex then 16 else 10);
          S2 = (if hex then drop 2 S1 else S1);
          Z = takeWhile (is_digit R) S2
      in if Z = [] then NaN
         else Num ((if neg then - 1 else 1) * int (digits_value R Z)))"

text \<open>\<open>s.split(c)\<close> for a one-character separator: never the empty list.\<close>

fun split_on :: "char \<Rightarrow> string \<Rightarrow> string list" where
  "split_on c [] = [[]]"
| "split_on c (x # xs) =
     (if x = c then [] # split_on c xs
      else (case split_on c xs of p # ps \<Rightarrow> (x # p) # ps | [] \<Rightarrow> [[x]]))"

text \<open>\<open>isNaN\<close>, \<open>Number.isNaN\<close> and \<open>a > b\<close> on these Numbers: a comparison with \<open>NaN\<close> is
  false.\<close>

fun isNaN :: "number \<Rightarrow> bool" where
  "isNaN NaN = True"
| "isNaN (Num n) = False"

fun greater :: "number \<Rightarrow> number \<Rightarrow> bool" where
  "greater (Num a) (Num b) = (a > b)"
| "greater a b = False"

text \<open>A stage of the top-level script either calls \<open>process.exit(code)\<close> or goes on.\<close>

datatype 'a stage = Exit nat | Continue 'a

text \<open>
  The parsing of the range argument (lines 146-187): \<open>start\<close> and \<open>end\<close> are \<open>null\<close>
  (\<open>None\<close>) where the keyword \<open>max\<close> stands, and Numbers otherwise. \<open>check_bounds\<close> is the
  last test, \<open>Block numbers must be integers or "max"\<close>.
\<close>

definition check_bounds :: "number option \<times> number option \<Rightarrow> (number option \<times> number option) stage" where
  "check_bounds se = (case se of (start, end) \<Rightarrow>
     if (case start of None \<Rightarrow> False | Some a \<Rightarrow> isNaN a)
        \<or> (case end of None \<Rightarrow> False | Some b \<Rightarrow> isNaN b)
     then Exit 1 else Continue (start, end))"

definition parse_range :: "string \<Rightarrow> (number option \<times> number option) stage" where
  "parse_range range_arg =
     (if CHR ''-'' \<in> set range_arg then
        (case split_on (CHR ''-'') range_arg of
           startStr # endStr # rest \<Rightarrow>
             if startStr = [] \<or> endStr = [] then Exit 1
             else
               (let start = parseInt startStr in
                if toLowerCase endStr = ''max'' then check_bounds (Some start, None)
                else
                  (let end = parseInt endStr in
                   if \<not> isNaN start \<and> \<not> isNaN end \<and> greater start end then Exit 1
                   else check_bounds (Some start, Some end)))
         | _ \<Rightarrow> Exit 1)
      else if toLowerCase range_arg = ''max'' then check_bounds (None, None)
      else (let start = parseInt range_arg in check_bounds (Some start, Some start)))"


section \<open>The block cache and the remote fetcher\<close>

text \<open>
  One call \<open>web3.eth.getBlock(blockNumber, true)\<close> either returns a value or rejects with
  an error. The error is taken to be an \<open>Error\<close> object as the provider library throws
  them: it has a string \<open>message\<close>, it may have a \<open>statusCode\<close>, and logging it does not
  throw. What the script writes to the diagnostic stream is not modelled.
\<close>

record rpc_error =
  statusCode :: "int option"
  message :: string

datatype response = Returned jsval | Rejected rpc_error

text \<open>The effects of a run, in the order they happen: the calls on the file system, the
  calls on the provider and the delays (in milliseconds).\<close>

datatype event =
    ExistsSync string
  | MkdirSync string
  | ReadFileSync string
  | WriteFileSync string
  | GetBlock int
  | GetBlockNumber
  | Sleep nat

text \<open>
  What a run is given: the cache directory of the network and the two flags the start-up
  probe leaves in \<open>cacheDir\<close>; the built-in reader of JSON text; the external compressor
  (\<open>None\<close> when \<open>execSync\<close> throws); the provider, as the answer to the k-th call of the
  run for a block number; the provider's head block (\<open>None\<close> when the query fails); the
  credential; and the paths on which a file system call fails.
\<close>

record env =
  CACHE_DIR :: string
  ready :: bool
  zstdAvailable :: bool
  scan :: "string \<Rightarrow> json option"
  zstd_compress :: "string \<Rightarrow> string option"
  zstd_decompress :: "string \<Rightarrow> string option"
  provider :: "nat \<Rightarrow> int \<Rightarrow> response"
  head_block :: "int option"
  MM_API_KEY :: "string option"
  mkdir_fails :: "string \<Rightarrow> bool"
  read_fails :: "string \<Rightarrow> bool"
  write_fails :: "string \<Rightarrow> bool"

text \<open>
  What a run changes: the memory tier \<open>memCache\<close>, the files and the directories of the
  disk tier, the number of provider calls made, and the trace of effects. A file system
  call that fails changes nothing; \<open>mkdirSync\<close> records the directory it was asked for.
\<close>

record state =
  memCache :: "int \<rightharpoonup> jsval"
  files :: "string \<rightharpoonup> string"
  dirs :: "string set"
  calls :: nat
  trace :: "event list"

definition emit :: "event \<Rightarrow> state \<Rightarrow> state" where
  "emit e s = s\<lparr>trace := trace s @ [e]\<rparr>"

definition dirname :: "string \<Rightarrow> string" where
  "dirname p = rev (tl (dropWhile (\<lambda>c. c \<noteq> CHR ''/'') (rev p)))"

definition existsSync :: "string \<Rightarrow> state \<Rightarrow> bool \<times> state" where
  "existsSync p s = (files s p \<noteq> None \<or> p \<in> dirs s, emit (ExistsSync p) s)"

definition mkdirSync :: "env \<Rightarrow> string \<Rightarrow> state \<Rightarrow> bool \<times> state" where
  "mkdirSync env p s =
     (if mkdir_fails env p then (False, emit (MkdirSync p) s)
      else (True, emit (MkdirSync p) (s\<lparr>dirs := insert p (dirs s)\<rparr>)))"

definition readFileSync :: "env \<Rightarrow> string \<Rightarrow> state \<Rightarrow> string option \<times> state" where
  "readFileSync env p s =
     (if read_fails env p then None else files s p, emit (ReadFileSync p) s)"

definition writeFileSync :: "env \<Rightarrow> string \<Rightarrow> string \<Rightarrow> state \<Rightarrow> bool \<times> state" where
  "writeFileSync env p data s =
     (if write_fails env p \<or> dirname p \<notin> dirs s then (False, emit (WriteFileSync p) s)
      else (True, emit (WriteFileSync p) (s\<lparr>files := (files s)(p \<mapsto> data)\<rparr>)))"

definition sleep :: "nat \<Rightarrow> state \<Rightarrow> state" where
  "sleep ms s = emit (Sleep ms) s"

text \<open>\<open>Number.prototype.toString\<close> and template interpolation of an integer Number (below
  10^21): its decimal numeral.\<close>

definition number_toString :: "int \<Rightarrow> string" where
  "number_toString n = bigint_toString n"

text \<open>
  \<open>getShardedPath\<close> (lines 201-220): the shard is the block number divided by one million,
  rounded down. The function creates the shard directory when \<open>existsSync\<close> does not find
  it, and returns the two file paths.
\<close>

record paths =
  compressed :: string
  legacy :: string

definition shard_dir :: "env \<Rightarrow> int \<Rightarrow> string" where
  "shard_dir env blockNum = CACHE_DIR env @ ''/'' @ number_toString (blockNum div 1000000)"

definition shard_paths :: "env \<Rightarrow> int \<Rightarrow> paths" where
  "shard_paths env blockNum =
     \<lparr>compressed = shard_dir env blockNum @ ''/block-'' @ number_toString blockNum @ ''.json.zst'',
      legacy = shard_dir env blockNum @ ''/block-'' @ number_toString blockNum @ ''.json''\<rparr>"

definition getShardedPath :: "env \<Rightarrow> int \<Rightarrow> state \<Rightarrow> paths \<times> state" where
  "getShardedPath env blockNum s =
     (let shardDir = shard_dir env blockNum;
          (there, s1) = existsSync shardDir s;
          s2 = (if \<not> there then snd (mkdirSync env shardDir s1) else s1)
      in (shard_paths env blockNum, s2))"

text \<open>The two \<open>try\<close> blocks of the disk probe (lines 228-243 and 248-257): a read, a
  decompression or a parse that throws gives \<open>None\<close>; a block that decodes is stored in the
  memory tier and returned.\<close>

definition read_compressed :: "env \<Rightarrow> int \<Rightarrow> string \<Rightarrow> state \<Rightarrow> jsval option \<times> state" where
  "read_compressed env blockNumber compressedCacheFile s =
     (let (compressedData, s1) = readFileSync env compressedCacheFile s in
      case compressedData of None \<Rightarrow> (None, s1)
      | Some bytes \<Rightarrow>
          (case zstd_decompress env bytes of None \<Rightarrow> (None, s1)
           | Some decompressed \<Rightarrow>
               (case JSON_parse (scan env) decompressed of None \<Rightarrow> (None, s1)
                | Some block \<Rightarrow> (Some block, s1\<lparr>memCache := (memCache s1)(blockNumber \<mapsto> block)\<rparr>))))"

definition read_legacy :: "env \<Rightarrow> int \<Rightarrow> string \<Rightarrow> state \<Rightarrow> jsval option \<times> state" where
  "read_legacy env blockNumber legacyCacheFile s =
     (let (data, s1) = readFileSync env legacyCacheFile s in
      case data of None \<Rightarrow> (None, s1)
      | Some txt \<Rightarrow>
          (case JSON_parse (scan env) txt of None \<Rightarrow> (None, s1)
           | Some block \<Rightarrow> (Some block, s1\<lparr>memCache := (memCache s1)(blockNumber \<mapsto> block)\<rparr>)))"

text \<open>The disk probe (lines 225-259), run when \<open>cacheDir.ready\<close> holds: the compressed
  file first, when the compressor was detected and the file is there, then the
  uncompressed one.\<close>

definition disk_lookup :: "env \<Rightarrow> int \<Rightarrow> paths \<Rightarrow> state \<Rightarrow> jsval option \<times> state" where
  "disk_lookup env blockNumber ps s =
     (let (hit, s2) =
            (if zstdAvailable env then
               (let (there, s1) = existsSync (compressed ps) s in
                if there then read_compressed env blockNumber (compressed ps) s1 else (None, s1))
             else (None, s))
      in case hit of
           Some block \<Rightarrow> (Some block, s2)
         | None \<Rightarrow>
             (let (there, s3) = existsSync (legacy ps) s2 in
              if there then read_legacy env blockNumber (legacy ps) s3 else (None, s3)))"

text \<open>
  The write to the disk tier after a fetch (lines 275-308). \<open>JSON.stringify\<close> gives a text
  for every block that passed the test \<open>block && block.transactions\<close>, so the first branch
  is never taken from \<open>fetch\<close>. A failed compression or a failed write of the compressed
  file falls back to the uncompressed file.
\<close>

definition write_through :: "env \<Rightarrow> int \<Rightarrow> jsval \<Rightarrow> state \<Rightarrow> state" where
  "write_through env blockNumber block s =
     (case JSON_stringify json_text block of
        None \<Rightarrow> s
      | Some jsonData \<Rightarrow>
          (let (ps, s1) = getShardedPath env blockNumber s in
           if zstdAvailable env then
             (case zstd_compress env jsonData of
                None \<Rightarrow> snd (writeFileSync env (legacy ps) jsonData s1)
              | Some bytes \<Rightarrow>
                  (let (ok, s2) = writeFileSync env (compressed ps) bytes s1 in
                   if ok then s2 else snd (writeFileSync env (legacy ps) jsonData s2)))
           else snd (writeFileSync env (legacy ps) jsonData s1)))"

text \<open>
  The retry loop (lines 262-365), from \<open>attempts\<close> on. An empty or invalid answer adds
  one to \<open>attempts\<close> and then waits; a rejected call waits, twice when the rate limit is
  signalled, and then adds one.
\<close>

definition rate_limited :: "rpc_error \<Rightarrow> bool" where
  "rate_limited error = (statusCode error = Some 429 \<or> statusCode error = Some 529)"

function fetch :: "env \<Rightarrow> int \<Rightarrow> nat \<Rightarrow> state \<Rightarrow> jsval \<times> state" where
  "fetch env blockNumber attempts s =
     (if attempts < 3 then
        (let s1 = emit (GetBlock blockNumber) (s\<lparr>calls := Suc (calls s)\<rparr>) in
         case provider env (calls s) blockNumber of
           Returned block \<Rightarrow>
             (if truthy block \<and> truthy (get_prop block ''transactions'') then
                (let s2 = s1\<lparr>memCache := (memCache s1)(blockNumber \<mapsto> block)\<rparr>
                 in (block, if ready env then write_through env blockNumber block s2 else s2))
              else
                fetch env blockNumber (Suc attempts)
                  (sleep (min 30000 (1000 * 2 ^ Suc attempts)) s1))
         | Rejected error \<Rightarrow>
             (let s2 = (if rate_limited error
                        then sleep (min 60000 (5000 * 2 ^ attempts)) s1 else s1)
              in fetch env blockNumber (Suc attempts)
                   (sleep (min 30000 (1000 * 2 ^ attempts)) s2)))
      else (JNull, s))"
  by pat_completeness auto
termination
  by (relation "measure (\<lambda>(env, blockNumber, attempts, s). 3 - attempts)") auto

declare fetch.simps [simp del]

text \<open>\<open>getBlock(blockNumber)\<close> (lines 193-366): memory tier, disk tier, provider.\<close>

definition getBlock :: "env \<Rightarrow> int \<Rightarrow> state \<Rightarrow> jsval \<times> state" where
  "getBlock env blockNumber s =
     (case memCache s blockNumber of
        Some block \<Rightarrow> (block, s)
      | None \<Rightarrow>
          (let (ps, s1) = getShardedPath env blockNumber s;
               (hit, s2) = (if ready env then disk_lookup env blockNumber ps s1 else (None, s1))
           in case hit of
                Some block \<Rightarrow> (block, s2)
              | None \<Rightarrow> fetch env blockNumber 0 s2))"

section \<open>The main function\<close>

text \<open>
  How a run ends: \<open>main\<close> returns (exit code 0), \<open>process.exit(code)\<close> is called, or a
  TypeError leaves \<open>main\<close> uncaught. The address stream is the list of the values passed
  to \<open>console.log\<close>.
\<close>

datatype outcome = Completed | Exited nat | Uncaught

text \<open>
  The body of the inner loop for one transaction (lines 408-413): reading \<open>tx.from\<close> of
  \<open>null\<close> or \<open>undefined\<close> throws. \<open>log_txs\<close> gives the lines printed and whether the loop
  ran to its end.
\<close>

definition log_tx :: "jsval \<Rightarrow> jsval list option" where
  "log_tx tx =
     (if tx = JUndefined \<or> tx = JNull then None
      else Some (get_prop tx ''from'' #
                 (if truthy (get_prop tx ''to'') then [get_prop tx ''to''] else [])))"

fun log_txs :: "jsval list \<Rightarrow> jsval list \<times> bool" where
  "log_txs [] = ([], True)"
| "log_txs (tx # txs) =
     (case log_tx tx of
        None \<Rightarrow> ([], False)
      | Some ls \<Rightarrow> (let (rest, ok) = log_txs txs in (ls @ rest, ok)))"

text \<open>\<open>for (const tx of v)\<close>: an array gives its elements, a string its characters, and
  any other value is not iterable (\<open>None\<close>, a TypeError).\<close>

fun iterate :: "jsval \<Rightarrow> jsval list option" where
  "iterate (JArray xs) = Some xs"
| "iterate (JStr s) = Some (map (\<lambda>c. JStr [c]) s)"
| "iterate v = None"

text \<open>The extraction for one block that \<open>getBlock\<close> returned truthy (lines 406-415).\<close>

definition extract_addresses :: "jsval \<Rightarrow> jsval list \<times> bool" where
  "extract_addresses block =
     (if truthy (get_prop block ''transactions'') then
        (case iterate (get_prop block ''transactions'') of
           None \<Rightarrow> ([], False)
         | Some txs \<Rightarrow> log_txs txs)
      else ([], True))"

text \<open>The loop over the block numbers (lines 401-416).\<close>

function main_loop :: "env \<Rightarrow> int \<Rightarrow> int \<Rightarrow> state \<Rightarrow> outcome \<times> jsval list \<times> state" where
  "main_loop env i end s =
     (if i \<le> end then
        (let (block, s1) = getBlock env i s in
         if \<not> truthy block then main_loop env (i + 1) end s1
         else
           (case extract_addresses block of
              (ls, False) \<Rightarrow> (Uncaught, ls, s1)
            | (ls, True) \<Rightarrow>
                (let (oc, rest, s2) = main_loop env (i + 1) end s1 in (oc, ls @ rest, s2))))
      else (Completed, [], s))"
  by pat_completeness auto
termination
  by (relation "measure (\<lambda>(env, i, end, s). nat (end + 1 - i))") auto

declare main_loop.simps [simp del]

text \<open>
  \<open>main\<close> (lines 369-419): one query for the head block, \<open>max\<close> resolved to it, both ends
  clamped to it, then the loop. A bound that is \<open>NaN\<close> never passes the range parsing; the
  loop would not run for it.
\<close>

definition main :: "env \<Rightarrow> number option \<times> number option \<Rightarrow> state \<Rightarrow> outcome \<times> jsval list \<times> state" where
  "main env se s =
     (case head_block env of
        None \<Rightarrow> (Exited 1, [], emit GetBlockNumber s)
      | Some latestBlock \<Rightarrow>
          (let s1 = emit GetBlockNumber s;
               start = (case fst se of None \<Rightarrow> Num latestBlock | Some a \<Rightarrow> a);
               end = (case snd se of None \<Rightarrow> Num latestBlock | Some b \<Rightarrow> b);
               start = (if greater start (Num latestBlock) then Num latestBlock else start);
               end = (if greater end (Num latestBlock) then Num latestBlock else end)
           in case (start, end) of
                (Num a, Num b) \<Rightarrow> main_loop env a b s1
              | _ \<Rightarrow> (Completed, [], s1)))"

section \<open>The script\<close>

text \<open>
  The top-level script up to the call of \<open>main\<close>: the argument count, the network (the
  lookup \<open>NETWORKS[network]\<close> also finds the two lower-case names every object inherits), the
  credential, the range. The start-up probe of the cache directory comes in between; it
  leaves the flags of \<open>env\<close>, makes no provider call and touches no cache entry, and is
  not modelled. \<open>argv\<close> is \<open>process.argv\<close>, the interpreter and the script first.
\<close>

definition NETWORKS :: "string list" where
  "NETWORKS = [''ethereum'', ''linea'', ''polygon'', ''base'', ''blast'', ''optimism'',
     ''arbitrum'', ''palm'', ''avalanche'', ''starknet'', ''celo'', ''zksync'', ''bsc'',
     ''mantle'', ''opbnb'', ''scroll'', ''swellchain'', ''unichain'']"

definition network_known :: "string \<Rightarrow> bool" where
  "network_known network = (network \<in> set NETWORKS \<or> network = ''constructor'' \<or> network = ''__proto__'')"

definition program :: "env \<Rightarrow> string list \<Rightarrow> state \<Rightarrow> outcome \<times> jsval list \<times> state" where
  "program env argv s =
     (if length argv \<noteq> 4 then (Exited 1, [], s)
      else if \<not> network_known (toLowerCase (argv ! 2)) then (Exited 1, [], s)
      else if (case MM_API_KEY env of None \<Rightarrow> True | Some k \<Rightarrow> k = []) then (Exited 1, [], s)
      else (case parse_range (argv ! 3) of
              Exit code \<Rightarrow> (Exited code, [], s)
            | Continue se \<Rightarrow> main env se s))"


section \<open>Properties of the cache and the fetcher\<close>

text \<open>The provider calls among the events of a trace.\<close>

fun is_remote :: "event \<Rightarrow> bool" where
  "is_remote (GetBlock n) = True"
| "is_remote GetBlockNumber = True"
| "is_remote e = False"

definition remote_calls :: "event list \<Rightarrow> event list" where
  "remote_calls evs = filter is_remote evs"

text \<open>
  What a file of the disk tier decodes to in a state: \<open>None\<close> when the file is absent or
  cannot be read, decompressed or parsed. \<open>compressed_entry\<close> and \<open>legacy_entry\<close> are the two
  entries of a block number as this run can decode them; the compressed one only when the
  run has the compressor.
\<close>

definition decode_compressed :: "env \<Rightarrow> state \<Rightarrow> string \<Rightarrow> jsval option" where
  "decode_compressed env s p =
     (if read_fails env p then None
      else case files s p of None \<Rightarrow> None
           | Some bytes \<Rightarrow>
               (case zstd_decompress env bytes of None \<Rightarrow> None
                | Some decompressed \<Rightarrow> JSON_parse (scan env) decompressed))"

definition decode_legacy :: "env \<Rightarrow> state \<Rightarrow> string \<Rightarrow> jsval option" where
  "decode_legacy env s p =
     (if read_fails env p then None
      else case files s p of None \<Rightarrow> None | Some txt \<Rightarrow> JSON_parse (scan env) txt)"

definition compressed_entry :: "env \<Rightarrow> state \<Rightarrow> int \<Rightarrow> jsval option" where
  "compressed_entry env s n =
     (if zstdAvailable env then decode_compressed env s (compressed (shard_paths env n)) else None)"

definition legacy_entry :: "env \<Rightarrow> state \<Rightarrow> int \<Rightarrow> jsval option" where
  "legacy_entry env s n = decode_legacy env s (legacy (shard_paths env n))"

lemma emit_simps [simp]:
  "memCache (emit e s) = memCache s"
  "files (emit e s) = files s"
  "dirs (emit e s) = dirs s"
  "calls (emit e s) = calls s"
  "trace (emit e s) = trace s @ [e]"
  by (simp_all add: emit_def)

lemma remote_calls_append [simp]: "remote_calls (xs @ ys) = remote_calls xs @ remote_calls ys"
  by (simp add: remote_calls_def)

lemma remote_calls_simps [simp]:
  "remote_calls [] = []"
  "remote_calls (e # evs) = (if is_remote e then e # remote_calls evs else remote_calls evs)"
  by (simp_all add: remote_calls_def)

lemma existsSync_simps [simp]:
  "fst (existsSync p s) = (files s p \<noteq> None \<or> p \<in> dirs s)"
  "snd (existsSync p s) = emit (ExistsSync p) s"
  by (simp_all add: existsSync_def)

lemma mkdirSync_simps [simp]:
  "memCache (snd (mkdirSync env p s)) = memCache s"
  "files (snd (mkdirSync env p s)) = files s"
  "calls (snd (mkdirSync env p s)) = calls s"
  "dirs (snd (mkdirSync env p s)) = (if mkdir_fails env p then dirs s else insert p (dirs s))"
  "trace (snd (mkdirSync env p s)) = trace s @ [MkdirSync p]"
  by (simp_all add: mkdirSync_def)

lemma readFileSync_simps [simp]:
  "fst (readFileSync env p s) = (if read_fails env p then None else files s p)"
  "snd (readFileSync env p s) = emit (ReadFileSync p) s"
  by (simp_all add: readFileSync_def)

lemma writeFileSync_simps [simp]:
  "memCache (snd (writeFileSync env p d s)) = memCache s"
  "dirs (snd (writeFileSync env p d s)) = dirs s"
  "calls (snd (writeFileSync env p d s)) = calls s"
  "trace (snd (writeFileSync env p d s)) = trace s @ [WriteFileSync p]"
  by (simp_all add: writeFileSync_def)

lemma writeFileSync_files:
  "files (snd (writeFileSync env p d s)) =
     (if write_fails env p \<or> dirname p \<notin> dirs s then files s else (files s)(p \<mapsto> d))"
  by (simp add: writeFileSync_def)

lemma writeFileSync_other: "q \<noteq> p \<Longrightarrow> files (snd (writeFileSync env p d s)) q = files s q"
  by (simp add: writeFileSync_files)

lemma writeFileSync_keeps: "files s q \<noteq> None \<Longrightarrow> files (snd (writeFileSync env p d s)) q \<noteq> None"
  by (simp add: writeFileSync_files)

lemma getShardedPath_simps [simp]:
  "fst (getShardedPath env n s) = shard_paths env n"
  "memCache (snd (getShardedPath env n s)) = memCache s"
  "files (snd (getShardedPath env n s)) = files s"
  "calls (snd (getShardedPath env n s)) = calls s"
  "dirs (snd (getShardedPath env n s)) =
     (if files s (shard_dir env n) \<noteq> None \<or> shard_dir env n \<in> dirs s \<or> mkdir_fails env (shard_dir env n)
      then dirs s else insert (shard_dir env n) (dirs s))"
  "remote_calls (trace (snd (getShardedPath env n s))) = remote_calls (trace s)"
  by (auto simp: getShardedPath_def Let_def split_beta)

lemma read_compressed_simps [simp]:
  "fst (read_compressed env n p s) = decode_compressed env s p"
  "files (snd (read_compressed env n p s)) = files s"
  "dirs (snd (read_compressed env n p s)) = dirs s"
  "calls (snd (read_compressed env n p s)) = calls s"
  "remote_calls (trace (snd (read_compressed env n p s))) = remote_calls (trace s)"
  "memCache (snd (read_compressed env n p s)) =
     (case decode_compressed env s p of None \<Rightarrow> memCache s | Some b \<Rightarrow> (memCache s)(n \<mapsto> b))"
  by (auto simp: read_compressed_def decode_compressed_def readFileSync_def split_beta Let_def split: option.splits)

lemma read_legacy_simps [simp]:
  "fst (read_legacy env n p s) = decode_legacy env s p"
  "files (snd (read_legacy env n p s)) = files s"
  "dirs (snd (read_legacy env n p s)) = dirs s"
  "calls (snd (read_legacy env n p s)) = calls s"
  "remote_calls (trace (snd (read_legacy env n p s))) = remote_calls (trace s)"
  "memCache (snd (read_legacy env n p s)) =
     (case decode_legacy env s p of None \<Rightarrow> memCache s | Some b \<Rightarrow> (memCache s)(n \<mapsto> b))"
  by (auto simp: read_legacy_def decode_legacy_def readFileSync_def split_beta Let_def split: option.splits)

lemma decode_frame [simp]:
  "decode_compressed env (emit e s) p = decode_compressed env s p"
  "decode_legacy env (emit e s) p = decode_legacy env s p"
  by (simp_all add: decode_compressed_def decode_legacy_def)

lemma decode_absent:
  "files s p = None \<Longrightarrow> decode_compressed env s p = None"
  "files s p = None \<Longrightarrow> decode_legacy env s p = None"
  by (simp_all add: decode_compressed_def decode_legacy_def)

text \<open>The block the disk probe finds for a pair of paths.\<close>

definition disk_hit :: "env \<Rightarrow> state \<Rightarrow> paths \<Rightarrow> jsval option" where
  "disk_hit env s ps =
     (case (if zstdAvailable env then decode_compressed env s (compressed ps) else None) of
        Some b \<Rightarrow> Some b
      | None \<Rightarrow> decode_legacy env s (legacy ps))"

lemma decode_after_read [simp]:
  "decode_legacy env (snd (read_compressed env n p s)) q = decode_legacy env s q"
  by (simp add: decode_legacy_def)

lemma disk_lookup_fst [simp]:
  "fst (disk_lookup env n ps s) = disk_hit env s ps"
proof (cases "zstdAvailable env")
  case True
  show ?thesis
  proof (cases "files s (compressed ps) \<noteq> None \<or> compressed ps \<in> dirs s")
    case ex: True
    show ?thesis
    proof (cases "decode_compressed env s (compressed ps)")
      case None
      then show ?thesis using True ex
        by (cases "files s (legacy ps)")
           (simp_all add: disk_lookup_def disk_hit_def split_beta Let_def decode_absent)
    next
      case (Some b)
      then show ?thesis using True ex
        by (simp add: disk_lookup_def disk_hit_def split_beta Let_def)
    qed
  next
    case nex: False
    then have "decode_compressed env s (compressed ps) = None" by (simp add: decode_absent)
    then show ?thesis using True nex
      by (cases "files s (legacy ps)")
         (simp_all add: disk_lookup_def disk_hit_def split_beta Let_def decode_absent)
  qed
next
  case False
  then show ?thesis
    by (cases "files s (legacy ps)")
       (simp_all add: disk_lookup_def disk_hit_def split_beta Let_def decode_absent)
qed


lemma disk_lookup_frame:
  "files (snd (disk_lookup env n ps s)) = files s
   \<and> dirs (snd (disk_lookup env n ps s)) = dirs s
   \<and> calls (snd (disk_lookup env n ps s)) = calls s
   \<and> remote_calls (trace (snd (disk_lookup env n ps s))) = remote_calls (trace s)
   \<and> memCache (snd (disk_lookup env n ps s)) =
       (case disk_hit env s ps of None \<Rightarrow> memCache s | Some b \<Rightarrow> (memCache s)(n \<mapsto> b))"
proof (cases "zstdAvailable env")
  case True
  show ?thesis
  proof (cases "files s (compressed ps) \<noteq> None \<or> compressed ps \<in> dirs s")
    case ex: True
    show ?thesis
    proof (cases "decode_compressed env s (compressed ps)")
      case None
      then show ?thesis using True ex
        by (cases "files s (legacy ps)")
           (simp_all add: disk_lookup_def disk_hit_def split_beta Let_def decode_absent split: option.split)
    next
      case (Some b)
      then show ?thesis using True ex
        by (simp add: disk_lookup_def disk_hit_def split_beta Let_def split: option.split)
    qed
  next
    case nex: False
    then have "decode_compressed env s (compressed ps) = None" by (simp add: decode_absent)
    then show ?thesis using True nex
      by (cases "files s (legacy ps)")
         (simp_all add: disk_lookup_def disk_hit_def split_beta Let_def decode_absent split: option.split)
  qed
next
  case False
  then show ?thesis
    by (cases "files s (legacy ps)")
       (simp_all add: disk_lookup_def disk_hit_def split_beta Let_def decode_absent split: option.split)
qed

lemma disk_lookup_simps [simp]:
  "files (snd (disk_lookup env n ps s)) = files s"
  "dirs (snd (disk_lookup env n ps s)) = dirs s"
  "calls (snd (disk_lookup env n ps s)) = calls s"
  "remote_calls (trace (snd (disk_lookup env n ps s))) = remote_calls (trace s)"
  "memCache (snd (disk_lookup env n ps s)) =
       (case disk_hit env s ps of None \<Rightarrow> memCache s | Some b \<Rightarrow> (memCache s)(n \<mapsto> b))"
  using disk_lookup_frame [of env n ps s] by simp_all

lemma write_through_rule:
  assumes "P s"
    and gs: "\<And>t. P t \<Longrightarrow> P (snd (getShardedPath env n t))"
    and wl: "\<And>t d. P t \<Longrightarrow> P (snd (writeFileSync env (legacy (shard_paths env n)) d t))"
    and wc: "\<And>t d. zstdAvailable env \<Longrightarrow> P t \<Longrightarrow>
               P (snd (writeFileSync env (compressed (shard_paths env n)) d t))"
  shows "P (write_through env n b s)"
proof (cases "JSON_stringify json_text b")
  case None
  then show ?thesis using assms(1) by (simp add: write_through_def)
next
  case (Some jsonData)
  let ?s1 = "snd (getShardedPath env n s)"
  have s1: "P ?s1" by (rule gs [OF assms(1)])
  show ?thesis
  proof (cases "zstdAvailable env")
    case False
    then have "write_through env n b s = snd (writeFileSync env (legacy (shard_paths env n)) jsonData ?s1)"
      by (simp add: write_through_def Some split_beta Let_def)
    then show ?thesis using wl [OF s1] by simp
  next
    case True
    show ?thesis
    proof (cases "zstd_compress env jsonData")
      case None
      then have "write_through env n b s = snd (writeFileSync env (legacy (shard_paths env n)) jsonData ?s1)"
        using True by (simp add: write_through_def Some split_beta Let_def)
      then show ?thesis using wl [OF s1] by simp
    next
      case (Some bytes)
      let ?s2 = "snd (writeFileSync env (compressed (shard_paths env n)) bytes ?s1)"
      have s2: "P ?s2" by (rule wc [OF True s1])
      show ?thesis
      proof (cases "fst (writeFileSync env (compressed (shard_paths env n)) bytes ?s1)")
        case ok: True
        then have "write_through env n b s = ?s2"
          using True Some \<open>JSON_stringify json_text b = Some jsonData\<close>
          by (simp add: write_through_def split_beta Let_def)
        then show ?thesis using s2 by simp
      next
        case nok: False
        then have "write_through env n b s = snd (writeFileSync env (legacy (shard_paths env n)) jsonData ?s2)"
          using True Some \<open>JSON_stringify json_text b = Some jsonData\<close>
          by (simp add: write_through_def split_beta Let_def)
        then show ?thesis using wl [OF s2] by simp
      qed
    qed
  qed
qed

lemma write_through_simps [simp]:
  "memCache (write_through env n b s) = memCache s"
  "calls (write_through env n b s) = calls s"
  "remote_calls (trace (write_through env n b s)) = remote_calls (trace s)"
  by (rule write_through_rule; simp)+

lemma write_through_files:
  "files (write_through env n b s) p \<noteq> files s p \<longrightarrow>
     (p = compressed (shard_paths env n) \<and> zstdAvailable env) \<or> p = legacy (shard_paths env n)"
  by (rule write_through_rule) (auto simp: writeFileSync_files)

lemma write_through_keeps:
  "files s p \<noteq> None \<longrightarrow> files (write_through env n b s) p \<noteq> None"
  by (rule write_through_rule) (auto simp: writeFileSync_files)

lemma write_through_dirs:
  "dirs (write_through env n b s) = dirs s \<or> dirs (write_through env n b s) = insert (shard_dir env n) (dirs s)"
  by (rule write_through_rule) auto


text \<open>
  The failure classes of one attempt, and the delays the loop imposes after the failed
  attempt number \<open>k\<close> of a call (counted from 0), in milliseconds and in order.
  \<open>spec_backoff\<close> is the table as the specification words it: one delay, base doubling per
  attempt, capped.
\<close>

datatype failure = EmptyResult | RateLimited | OtherError

fun classify :: "response \<Rightarrow> failure option" where
  "classify (Returned block) =
     (if truthy block \<and> truthy (get_prop block ''transactions'') then None else Some EmptyResult)"
| "classify (Rejected error) = Some (if rate_limited error then RateLimited else OtherError)"

fun backoff :: "failure \<Rightarrow> nat \<Rightarrow> nat list" where
  "backoff EmptyResult k = [min 30000 (1000 * 2 ^ Suc k)]"
| "backoff RateLimited k = [min 60000 (5000 * 2 ^ k), min 30000 (1000 * 2 ^ k)]"
| "backoff OtherError k = [min 30000 (1000 * 2 ^ k)]"

fun spec_backoff :: "failure \<Rightarrow> nat \<Rightarrow> nat list" where
  "spec_backoff EmptyResult k = [min 30000 (1000 * 2 ^ k)]"
| "spec_backoff RateLimited k = [min 60000 (5000 * 2 ^ k)]"
| "spec_backoff OtherError k = [min 30000 (1000 * 2 ^ k)]"

text \<open>The state after a failed attempt: one provider call, then the delays.\<close>

definition failed_attempt :: "int \<Rightarrow> failure \<Rightarrow> nat \<Rightarrow> state \<Rightarrow> state" where
  "failed_attempt n c k s =
     s\<lparr>calls := Suc (calls s), trace := trace s @ GetBlock n # map Sleep (backoff c k)\<rparr>"

lemma fetch_failed_step:
  assumes "k < 3" and "classify (provider env (calls s) n) = Some c"
  shows "fetch env n k s = fetch env n (Suc k) (failed_attempt n c k s)"
proof (cases "provider env (calls s) n")
  case (Returned block)
  with assms(2) have c: "c = EmptyResult"
    and nb: "(truthy block \<and> truthy (get_prop block ''transactions'')) = False"
    by (auto split: if_splits)
  show ?thesis
    by (subst fetch.simps) (use assms(1) Returned nb c in \<open>auto simp add: failed_attempt_def emit_def sleep_def Let_def\<close>)
next
  case (Rejected error)
  with assms(2) have c: "c = (if rate_limited error then RateLimited else OtherError)" by simp
  show ?thesis
    by (subst fetch.simps) (use assms(1) Rejected c in \<open>simp add: failed_attempt_def emit_def sleep_def Let_def\<close>)
qed

lemma fetch_exhausted: "\<not> k < 3 \<Longrightarrow> fetch env n k s = (JNull, s)"
  by (subst fetch.simps) simp

lemma fetch_success:
  assumes "k < 3" and "provider env (calls s) n = Returned block"
    and "truthy block" and "truthy (get_prop block ''transactions'')"
  shows "fetch env n k s =
    (block,
     let s2 = (emit (GetBlock n) (s\<lparr>calls := Suc (calls s)\<rparr>))\<lparr>memCache := (memCache s)(n \<mapsto> block)\<rparr>
     in if ready env then write_through env n block s2 else s2)"
  by (subst fetch.simps) (use assms in \<open>simp add: Let_def\<close>)

lemma backoff_values:
  "k < 3 \<Longrightarrow> backoff c k =
     (case c of EmptyResult \<Rightarrow> [2000 * 2 ^ k]
      | RateLimited \<Rightarrow> [5000 * 2 ^ k, 1000 * 2 ^ k]
      | OtherError \<Rightarrow> [1000 * 2 ^ k])"
proof -
  assume "k < 3"
  then have "k = 0 \<or> k = 1 \<or> k = 2" by arith
  then show ?thesis by (cases c) auto
qed

lemma failed_attempt_simps [simp]:
  "memCache (failed_attempt n c k s) = memCache s"
  "files (failed_attempt n c k s) = files s"
  "dirs (failed_attempt n c k s) = dirs s"
  "calls (failed_attempt n c k s) = Suc (calls s)"
  "trace (failed_attempt n c k s) = trace s @ GetBlock n # map Sleep (backoff c k)"
  by (simp_all add: failed_attempt_def)

lemma remote_calls_sleeps [simp]: "remote_calls (map Sleep ds) = []"
  by (induction ds) simp_all

lemma fetch_all_failed:
  assumes "classify (provider env (calls s) n) = Some c0"
    and "classify (provider env (Suc (calls s)) n) = Some c1"
    and "classify (provider env (Suc (Suc (calls s))) n) = Some c2"
  shows "fetch env n 0 s =
    (JNull, failed_attempt n c2 2 (failed_attempt n c1 1 (failed_attempt n c0 0 s)))"
proof -
  have "fetch env n 0 s = fetch env n (Suc 0) (failed_attempt n c0 0 s)"
    by (rule fetch_failed_step) (simp_all add: assms)
  also have "\<dots> = fetch env n (Suc (Suc 0)) (failed_attempt n c1 (Suc 0) (failed_attempt n c0 0 s))"
    by (rule fetch_failed_step) (simp_all add: assms)
  also have "\<dots> = fetch env n (Suc (Suc (Suc 0)))
       (failed_attempt n c2 (Suc (Suc 0)) (failed_attempt n c1 (Suc 0) (failed_attempt n c0 0 s)))"
    by (rule fetch_failed_step) (simp_all add: assms)
  also have "\<dots> = (JNull, failed_attempt n c2 (Suc (Suc 0)) (failed_attempt n c1 (Suc 0) (failed_attempt n c0 0 s)))"
    by (rule fetch_exhausted) simp
  finally show ?thesis by (simp add: numeral_2_eq_2)
qed

lemma failed_attempt_emits:
  "failed_attempt n c k s =
     (case backoff c k of
        [d] \<Rightarrow> emit (Sleep d) (emit (GetBlock n) (s\<lparr>calls := Suc (calls s)\<rparr>))
      | [d, d'] \<Rightarrow> emit (Sleep d') (emit (Sleep d) (emit (GetBlock n) (s\<lparr>calls := Suc (calls s)\<rparr>)))
      | _ \<Rightarrow> failed_attempt n c k s)"
  by (cases c) (simp_all add: failed_attempt_def emit_def)

lemma classify_None:
  "classify r = None \<Longrightarrow> \<exists>block. r = Returned block \<and> truthy block \<and> truthy (get_prop block ''transactions'')"
  by (cases r) (auto split: if_splits)

lemma fetch_rule:
  assumes "P s"
    and ev: "\<And>t e. P t \<Longrightarrow> P (emit e t)"
    and cl: "\<And>t. P t \<Longrightarrow> P (t\<lparr>calls := Suc (calls t)\<rparr>)"
    and mc: "\<And>t b. P t \<Longrightarrow> P (t\<lparr>memCache := (memCache t)(n \<mapsto> b)\<rparr>)"
    and wt: "\<And>t b. ready env \<Longrightarrow> P t \<Longrightarrow> P (write_through env n b t)"
  shows "P (snd (fetch env n k s))"
  using assms(1)
proof (induction "3 - k" arbitrary: k s)
  case 0
  then show ?case by (simp add: fetch_exhausted)
next
  case (Suc m)
  then have k: "k < 3" by simp
  show ?case
  proof (cases "classify (provider env (calls s) n)")
    case (Some c)
    have "P (failed_attempt n c k s)"
      by (subst failed_attempt_emits) (cases c; simp add: ev cl Suc.prems)
    moreover have "m = 3 - Suc k" using Suc.hyps(2) by simp
    ultimately have "P (snd (fetch env n (Suc k) (failed_attempt n c k s)))"
      by (rule Suc.hyps(1) [rotated])
    then show ?thesis by (simp add: fetch_failed_step [OF k Some])
  next
    case None
    then obtain block where b: "provider env (calls s) n = Returned block" "truthy block"
      "truthy (get_prop block ''transactions'')"
      using classify_None by blast
    let ?s2 = "(emit (GetBlock n) (s\<lparr>calls := Suc (calls s)\<rparr>))\<lparr>memCache := (memCache s)(n \<mapsto> block)\<rparr>"
    have "?s2 = (emit (GetBlock n) (s\<lparr>calls := Suc (calls s)\<rparr>))
                  \<lparr>memCache := (memCache (emit (GetBlock n) (s\<lparr>calls := Suc (calls s)\<rparr>)))(n \<mapsto> block)\<rparr>"
      by simp
    then have s2: "P ?s2" using mc [OF ev [OF cl [OF Suc.prems]], of "GetBlock n" block] by simp
    show ?thesis
    proof (cases "ready env")
      case True
      then show ?thesis using wt [OF True s2] by (simp add: fetch_success [OF k b] Let_def)
    next
      case False
      then show ?thesis using s2 by (simp add: fetch_success [OF k b] Let_def)
    qed
  qed
qed

lemma fetch_files_changed:
  "files (snd (fetch env n k s)) p \<noteq> files s p \<longrightarrow>
     ready env \<and> ((p = compressed (shard_paths env n) \<and> zstdAvailable env) \<or> p = legacy (shard_paths env n))"
proof (rule fetch_rule, goal_cases)
  case (5 t b)
  then show ?case using write_through_files [of env n b t p] by auto
qed simp_all

lemma fetch_files_kept:
  "files s p \<noteq> None \<longrightarrow> files (snd (fetch env n k s)) p \<noteq> None"
proof (rule fetch_rule, goal_cases)
  case (5 t b)
  then show ?case using write_through_keeps [of t p env n b] by auto
qed simp_all

lemma fetch_dirs:
  "dirs (snd (fetch env n k s)) = dirs s \<or> dirs (snd (fetch env n k s)) = insert (shard_dir env n) (dirs s)"
proof (rule fetch_rule, goal_cases)
  case (5 t b)
  then show ?case using write_through_dirs [of env n b t] by auto
qed simp_all

lemma fetch_memCache_other:
  "m \<noteq> n \<Longrightarrow> memCache (snd (fetch env n k s)) m = memCache s m"
  by (rule fetch_rule) simp_all


text \<open>The file system calls of \<open>getShardedPath\<close> and of the disk probe, as events.\<close>

definition probe_events :: "env \<Rightarrow> int \<Rightarrow> state \<Rightarrow> event list" where
  "probe_events env n s =
     ExistsSync (shard_dir env n) #
       (if files s (shard_dir env n) \<noteq> None \<or> shard_dir env n \<in> dirs s then []
        else [MkdirSync (shard_dir env n)])"

definition disk_events :: "env \<Rightarrow> state \<Rightarrow> paths \<Rightarrow> event list" where
  "disk_events env s ps =
     (if zstdAvailable env then
        ExistsSync (compressed ps) #
          (if files s (compressed ps) \<noteq> None \<or> compressed ps \<in> dirs s
           then [ReadFileSync (compressed ps)] else [])
      else [])
     @ (if zstdAvailable env \<and> decode_compressed env s (compressed ps) \<noteq> None then []
        else ExistsSync (legacy ps) #
          (if files s (legacy ps) \<noteq> None \<or> legacy ps \<in> dirs s
           then [ReadFileSync (legacy ps)] else []))"

lemma getShardedPath_trace [simp]:
  "trace (snd (getShardedPath env n s)) = trace s @ probe_events env n s"
  by (auto simp: getShardedPath_def probe_events_def Let_def split_beta)

lemma read_trace [simp]:
  "trace (snd (read_compressed env n p s)) = trace s @ [ReadFileSync p]"
  "trace (snd (read_legacy env n p s)) = trace s @ [ReadFileSync p]"
  by (simp_all add: read_compressed_def read_legacy_def split_beta Let_def split: option.split)

lemma disk_lookup_trace [simp]:
  "trace (snd (disk_lookup env n ps s)) = trace s @ disk_events env s ps"
proof (cases "zstdAvailable env")
  case True
  show ?thesis
  proof (cases "files s (compressed ps) \<noteq> None \<or> compressed ps \<in> dirs s")
    case ex: True
    show ?thesis
    proof (cases "decode_compressed env s (compressed ps)")
      case None
      then show ?thesis using True ex
        by (cases "files s (legacy ps)")
           (simp_all add: disk_lookup_def disk_events_def split_beta Let_def decode_absent split: option.split)
    next
      case (Some b)
      then show ?thesis using True ex
        by (simp add: disk_lookup_def disk_events_def split_beta Let_def split: option.split)
    qed
  next
    case nex: False
    then have "decode_compressed env s (compressed ps) = None" by (simp add: decode_absent)
    then show ?thesis using True nex
      by (cases "files s (legacy ps)")
         (simp_all add: disk_lookup_def disk_events_def split_beta Let_def decode_absent split: option.split)
  qed
next
  case False
  then show ?thesis
    by (cases "files s (legacy ps)")
       (simp_all add: disk_lookup_def disk_events_def split_beta Let_def decode_absent split: option.split)
qed

lemma remote_calls_probe [simp]: "remote_calls (probe_events env n s) = []"
  by (simp add: probe_events_def)

lemma remote_calls_disk [simp]: "remote_calls (disk_events env s ps) = []"
  by (simp add: disk_events_def)

lemma disk_hit_entries:
  "disk_hit env s (shard_paths env n) =
     (case compressed_entry env s n of Some b \<Rightarrow> Some b | None \<Rightarrow> legacy_entry env s n)"
  by (simp add: disk_hit_def compressed_entry_def legacy_entry_def split: option.split)

lemma decode_files:
  assumes "files t = files s"
  shows "decode_compressed env t = decode_compressed env s"
    and "decode_legacy env t = decode_legacy env s"
  by (simp_all add: fun_eq_iff decode_compressed_def decode_legacy_def assms)

lemma disk_hit_files:
  assumes "files t = files s"
  shows "disk_hit env t ps = disk_hit env s ps"
  unfolding disk_hit_def decode_files(1) [OF assms] decode_files(2) [OF assms] ..

text \<open>
  The state after the path computation and the disk probe of a call that missed the
  memory tier, and the block the disk tier gives such a call (\<open>None\<close> when the cache is not
  ready or neither entry decodes).
\<close>

definition after_probe :: "env \<Rightarrow> int \<Rightarrow> state \<Rightarrow> state" where
  "after_probe env n s =
     (let s1 = snd (getShardedPath env n s)
      in if ready env then snd (disk_lookup env n (shard_paths env n) s1) else s1)"

definition disk_entry :: "env \<Rightarrow> state \<Rightarrow> int \<Rightarrow> jsval option" where
  "disk_entry env s n =
     (if ready env
      then (case compressed_entry env s n of Some b \<Rightarrow> Some b | None \<Rightarrow> legacy_entry env s n)
      else None)"

lemma getBlock_hit: "memCache s n = Some b \<Longrightarrow> getBlock env n s = (b, s)"
  by (simp add: getBlock_def)

lemma getBlock_miss:
  "memCache s n = None \<Longrightarrow>
     getBlock env n s =
       (case disk_entry env s n of
          Some b \<Rightarrow> (b, after_probe env n s)
        | None \<Rightarrow> fetch env n 0 (after_probe env n s))"
proof -
  assume m: "memCache s n = None"
  have dh: "disk_hit env (snd (getShardedPath env n s)) (shard_paths env n)
        = disk_hit env s (shard_paths env n)"
    by (rule disk_hit_files) simp
  show ?thesis
    by (cases "ready env")
       (simp_all add: getBlock_def m split_beta Let_def after_probe_def disk_entry_def dh
          disk_hit_entries [symmetric] split: option.split)
qed

lemma after_probe_simps [simp]:
  "files (after_probe env n s) = files s"
  "calls (after_probe env n s) = calls s"
  "dirs (after_probe env n s) =
     (if files s (shard_dir env n) \<noteq> None \<or> shard_dir env n \<in> dirs s \<or> mkdir_fails env (shard_dir env n)
      then dirs s else insert (shard_dir env n) (dirs s))"
  "remote_calls (trace (after_probe env n s)) = remote_calls (trace s)"
  by (simp_all add: after_probe_def Let_def)

lemma after_probe_trace:
  "\<exists>evs. trace (after_probe env n s) = trace s @ evs \<and> remote_calls evs = []"
  by (cases "ready env") (simp_all add: after_probe_def Let_def)

lemma after_probe_memCache:
  "memCache (after_probe env n s) =
     (case disk_entry env s n of None \<Rightarrow> memCache s | Some b \<Rightarrow> (memCache s)(n \<mapsto> b))"
proof -
  have dh: "disk_hit env (snd (getShardedPath env n s)) (shard_paths env n)
        = disk_hit env s (shard_paths env n)"
    by (rule disk_hit_files) simp
  show ?thesis
    by (cases "ready env")
       (simp_all add: after_probe_def Let_def disk_entry_def dh disk_hit_entries [symmetric]
          split: option.split)
qed

text \<open>
  C2. Tier order of \<open>getBlock\<close>. A block in the memory tier is returned with the state
  unchanged: no file system call and no provider call. Otherwise, with the cache ready, a
  compressed entry that decodes is returned, and failing that an uncompressed entry that
  decodes; in both cases the events of the call hold no provider call. A call whose events
  hold a provider call missed the memory tier, and the cache was not ready or neither entry
  decoded. An entry decodes when the file is there and the read, the decompression (for
  the compressed entry, which needs the compressor) and the parse succeed.
\<close>

theorem cache_tiers:
  "(memCache s n = Some b \<longrightarrow> getBlock env n s = (b, s))
   \<and> (memCache s n = None \<and> ready env \<and> compressed_entry env s n = Some b \<longrightarrow>
        fst (getBlock env n s) = b
        \<and> calls (snd (getBlock env n s)) = calls s
        \<and> (\<exists>evs. trace (snd (getBlock env n s)) = trace s @ evs \<and> remote_calls evs = []))
   \<and> (memCache s n = None \<and> ready env \<and> compressed_entry env s n = None
        \<and> legacy_entry env s n = Some b \<longrightarrow>
        fst (getBlock env n s) = b
        \<and> calls (snd (getBlock env n s)) = calls s
        \<and> (\<exists>evs. trace (snd (getBlock env n s)) = trace s @ evs \<and> remote_calls evs = []))
   \<and> (remote_calls (trace (snd (getBlock env n s))) \<noteq> remote_calls (trace s) \<longrightarrow>
        memCache s n = None
        \<and> (\<not> ready env \<or> (compressed_entry env s n = None \<and> legacy_entry env s n = None)))"
proof (intro conjI impI)
  assume "memCache s n = Some b"
  then show "getBlock env n s = (b, s)" by (rule getBlock_hit)
next
  assume a: "memCache s n = None \<and> ready env \<and> compressed_entry env s n = Some b"
  then have g: "getBlock env n s = (b, after_probe env n s)"
    by (simp add: getBlock_miss disk_entry_def)
  show "fst (getBlock env n s) = b" by (simp add: g)
  show "calls (snd (getBlock env n s)) = calls s" by (simp add: g)
  show "\<exists>evs. trace (snd (getBlock env n s)) = trace s @ evs \<and> remote_calls evs = []"
    using after_probe_trace [of env n s] by (simp add: g)
next
  assume a: "memCache s n = None \<and> ready env \<and> compressed_entry env s n = None
        \<and> legacy_entry env s n = Some b"
  then have g: "getBlock env n s = (b, after_probe env n s)"
    by (simp add: getBlock_miss disk_entry_def)
  show "fst (getBlock env n s) = b" by (simp add: g)
  show "calls (snd (getBlock env n s)) = calls s" by (simp add: g)
  show "\<exists>evs. trace (snd (getBlock env n s)) = trace s @ evs \<and> remote_calls evs = []"
    using after_probe_trace [of env n s] by (simp add: g)
next
  assume r: "remote_calls (trace (snd (getBlock env n s))) \<noteq> remote_calls (trace s)"
  show "memCache s n = None"
  proof (cases "memCache s n")
    case (Some b')
    with r show ?thesis by (simp add: getBlock_hit)
  qed simp
  show "\<not> ready env \<or> (compressed_entry env s n = None \<and> legacy_entry env s n = None)"
  proof (rule ccontr)
    assume "\<not> ?thesis"
    then obtain b' where "disk_entry env s n = Some b'"
      by (cases "compressed_entry env s n") (auto simp: disk_entry_def)
    moreover have "memCache s n = None" by fact
    ultimately have "getBlock env n s = (b', after_probe env n s)" by (simp add: getBlock_miss)
    with r show False by simp
  qed
qed


lemma main_loop_skip:
  assumes "i \<le> e" and "getBlock env i s = (block, s1)"
    and "\<not> truthy block \<or> \<not> truthy (get_prop block ''transactions'')"
  shows "main_loop env i e s = main_loop env (i + 1) e s1"
proof (cases "truthy block")
  case False
  then show ?thesis using assms(1,2) by (subst main_loop.simps) simp
next
  case True
  with assms(3) have "extract_addresses block = ([], True)" by (simp add: extract_addresses_def)
  then show ?thesis using assms(1,2) True
    by (subst main_loop.simps) (simp add: split_beta)
qed


text \<open>
  C4 (as amended). After the failed attempt number \<open>k\<close> of a call (\<open>k\<close> = 0, 1, 2) the loop
  makes one provider call, waits, and goes on with attempt \<open>k + 1\<close>, also after the third
  failure, where no attempt follows. After an empty or invalid answer it waits once,
  2s, 4s, 8s; after a rejection without a rate-limit status once, 1s, 2s, 4s; after a
  rejection with status 429 or 529 twice, first 5s, 10s, 20s and then 1s, 2s, 4s. With at
  most three attempts the caps of 30s and 60s are never reached.
\<close>

theorem backoff_per_attempt:
  "k < 3 \<and> classify (provider env (calls s) n) = Some c \<longrightarrow>
     fetch env n k s = fetch env n (Suc k) (failed_attempt n c k s)
     \<and> calls (failed_attempt n c k s) = Suc (calls s)
     \<and> trace (failed_attempt n c k s) = trace s @ GetBlock n # map Sleep (backoff c k)
     \<and> backoff c k =
         (case c of EmptyResult \<Rightarrow> [2000 * 2 ^ k]
          | RateLimited \<Rightarrow> [5000 * 2 ^ k, 1000 * 2 ^ k]
          | OtherError \<Rightarrow> [1000 * 2 ^ k])"
  using fetch_failed_step [of k env s n c] backoff_values [of k c] by simp

text \<open>
  C6 (as amended). \<open>getBlock\<close> deletes no file. A file whose content it changes is one
  of the two entries of the requested block, in a call that missed the memory tier with
  the cache ready and in which neither entry of that block decoded; the compressed entry
  is written only when the compressor is available. So an entry that decodes is never
  rewritten, and an entry that does not decode can be overwritten when the block is
  fetched again.
\<close>

theorem disk_entries_kept:
  "(files s p \<noteq> None \<longrightarrow> files (snd (getBlock env n s)) p \<noteq> None)
   \<and> (files (snd (getBlock env n s)) p \<noteq> files s p \<longrightarrow>
        memCache s n = None \<and> ready env
        \<and> compressed_entry env s n = None \<and> legacy_entry env s n = None
        \<and> ((p = compressed (shard_paths env n) \<and> zstdAvailable env) \<or> p = legacy (shard_paths env n)))"
proof (cases "memCache s n")
  case (Some b)
  then show ?thesis by (simp add: getBlock_hit)
next
  case None
  show ?thesis
  proof (cases "disk_entry env s n")
    case (Some b)
    then show ?thesis using None by (simp add: getBlock_miss)
  next
    case de: None
    let ?t = "after_probe env n s"
    have g: "getBlock env n s = fetch env n 0 ?t" by (simp add: getBlock_miss None de)
    have k: "files s p \<noteq> None \<longrightarrow> files (snd (fetch env n 0 ?t)) p \<noteq> None"
      using fetch_files_kept [of ?t p env n 0] by simp
    have c: "files (snd (fetch env n 0 ?t)) p \<noteq> files s p \<longrightarrow>
       ready env \<and> ((p = compressed (shard_paths env n) \<and> zstdAvailable env) \<or> p = legacy (shard_paths env n))"
      using fetch_files_changed [of env n 0 ?t p] by simp
    have "ready env \<longrightarrow> compressed_entry env s n = None \<and> legacy_entry env s n = None"
      using de by (cases "compressed_entry env s n") (auto simp: disk_entry_def)
    with k c show ?thesis using None by (auto simp: g)
  qed
qed


text \<open>The shard directory needs no further \<open>mkdirSync\<close>: \<open>existsSync\<close> finds it, or
  creating it fails.\<close>

definition shard_settled :: "env \<Rightarrow> int \<Rightarrow> state \<Rightarrow> bool" where
  "shard_settled env n s =
     (files s (shard_dir env n) \<noteq> None \<or> shard_dir env n \<in> dirs s \<or> mkdir_fails env (shard_dir env n))"

lemma getShardedPath_settled:
  "shard_settled env n s \<Longrightarrow> dirs (snd (getShardedPath env n s)) = dirs s"
  by (simp add: shard_settled_def)

lemma settled_after_probe: "shard_settled env n (after_probe env n s)"
  by (simp add: shard_settled_def)

lemma settled_cong:
  "files t = files s \<Longrightarrow> dirs t = dirs s \<Longrightarrow> shard_settled env n t = shard_settled env n s"
  by (simp add: shard_settled_def)

lemma writeFileSync_settled:
  "shard_settled env n s \<Longrightarrow> shard_settled env n (snd (writeFileSync env p d s))"
  unfolding shard_settled_def using writeFileSync_keeps [of s "shard_dir env n" env p d]
  by auto

lemma write_through_settled:
  assumes "shard_settled env n s"
  shows "dirs (write_through env n b s) = dirs s \<and> shard_settled env n (write_through env n b s)"
proof (rule write_through_rule [where P = "\<lambda>t. dirs t = dirs s \<and> shard_settled env n t"], goal_cases)
  case 1
  then show ?case using assms by simp
next
  case (2 t)
  then have d: "dirs (snd (getShardedPath env n t)) = dirs t" by (simp only: getShardedPath_settled)
  have "shard_settled env n (snd (getShardedPath env n t)) = shard_settled env n t"
    by (rule settled_cong) (simp, rule d)
  with 2 d show ?case by simp
next
  case (3 t d)
  then show ?case using writeFileSync_settled [of env n t] by simp
next
  case (4 t d)
  then show ?case using writeFileSync_settled [of env n t] by simp
qed

lemma fetch_settled:
  assumes "shard_settled env n s"
  shows "dirs (snd (fetch env n k s)) = dirs s"
proof -
  have "dirs (snd (fetch env n k s)) = dirs s \<and> shard_settled env n (snd (fetch env n k s))"
  proof (rule fetch_rule [where P = "\<lambda>t. dirs t = dirs s \<and> shard_settled env n t"], goal_cases)
    case 1
    then show ?case using assms by simp
  next
    case (2 t e)
    then show ?case by (auto simp: shard_settled_def)
  next
    case (3 t)
    then show ?case by (auto simp: shard_settled_def)
  next
    case (4 t b)
    then show ?case by (auto simp: shard_settled_def)
  next
    case (5 t b)
    then show ?case using write_through_settled [of env n t b] by simp
  qed
  then show ?thesis by simp
qed

text \<open>
  C9 (as amended). A call served from the memory tier creates no directory. Every call
  that misses the memory tier creates the shard directory of the block when
  \<open>existsSync\<close> does not find it and \<open>mkdirSync\<close> succeeds, at the path computation before the
  disk probe, whether or not anything is written afterwards; it creates no other
  directory.
\<close>

theorem shard_directory_creation:
  "(memCache s n = Some b \<longrightarrow> dirs (snd (getBlock env n s)) = dirs s)
   \<and> (memCache s n = None \<longrightarrow>
        dirs (snd (getBlock env n s)) =
          (if files s (shard_dir env n) \<noteq> None \<or> shard_dir env n \<in> dirs s
              \<or> mkdir_fails env (shard_dir env n)
           then dirs s else insert (shard_dir env n) (dirs s)))"
proof (intro conjI impI)
  assume "memCache s n = Some b"
  then show "dirs (snd (getBlock env n s)) = dirs s" by (simp add: getBlock_hit)
next
  assume m: "memCache s n = None"
  have "dirs (snd (getBlock env n s)) = dirs (after_probe env n s)"
  proof (cases "disk_entry env s n")
    case None
    then show ?thesis
      using fetch_settled [OF settled_after_probe, of env n 0 s] by (simp add: getBlock_miss m)
  next
    case (Some b)
    then show ?thesis by (simp add: getBlock_miss m)
  qed
  then show "dirs (snd (getBlock env n s)) =
          (if files s (shard_dir env n) \<noteq> None \<or> shard_dir env n \<in> dirs s
              \<or> mkdir_fails env (shard_dir env n)
           then dirs s else insert (shard_dir env n) (dirs s))"
    by simp
qed

text \<open>
  The lines of one transaction and of one block, in order: the sender, then the recipient
  when it is truthy. \<open>well_formed\<close>: a block the extraction can walk, that is a falsy
  value, a value whose \<open>transactions\<close> is falsy, or one whose \<open>transactions\<close> is an array
  with no \<open>null\<close> or \<open>undefined\<close> element. \<open>resolved\<close>: the values \<open>getBlock\<close> returns for
  the block numbers from \<open>i\<close> to \<open>e\<close> in ascending order, each call in the state the
  call before left.
\<close>

definition tx_lines :: "jsval \<Rightarrow> jsval list" where
  "tx_lines tx = get_prop tx ''from'' # (if truthy (get_prop tx ''to'') then [get_prop tx ''to''] else [])"

fun transactions_of :: "jsval \<Rightarrow> jsval list" where
  "transactions_of (JArray txs) = txs"
| "transactions_of v = []"

definition block_lines :: "jsval \<Rightarrow> jsval list" where
  "block_lines block =
     (if truthy block \<and> truthy (get_prop block ''transactions'')
      then concat (map tx_lines (transactions_of (get_prop block ''transactions'')))
      else [])"

fun is_array :: "jsval \<Rightarrow> bool" where
  "is_array (JArray xs) = True"
| "is_array v = False"

definition well_formed :: "jsval \<Rightarrow> bool" where
  "well_formed block =
     (\<not> truthy block \<or> \<not> truthy (get_prop block ''transactions'')
      \<or> (is_array (get_prop block ''transactions'')
          \<and> list_all (\<lambda>tx. tx \<noteq> JUndefined \<and> tx \<noteq> JNull)
               (transactions_of (get_prop block ''transactions''))))"

function resolved :: "env \<Rightarrow> int \<Rightarrow> int \<Rightarrow> state \<Rightarrow> jsval list" where
  "resolved env i e s =
     (if i \<le> e then fst (getBlock env i s) # resolved env (i + 1) e (snd (getBlock env i s))
      else [])"
  by pat_completeness auto
termination
  by (relation "measure (\<lambda>(env, i, e, s). nat (e + 1 - i))") auto

declare resolved.simps [simp del]

lemma log_txs_objects:
  "list_all (\<lambda>tx. tx \<noteq> JUndefined \<and> tx \<noteq> JNull) txs \<Longrightarrow>
     log_txs txs = (concat (map tx_lines txs), True)"
  by (induction txs) (auto simp: log_tx_def tx_lines_def)

lemma extract_well_formed:
  assumes "truthy block" and "well_formed block"
  shows "extract_addresses block = (block_lines block, True)"
proof (cases "truthy (get_prop block ''transactions'')")
  case False
  then show ?thesis by (simp add: extract_addresses_def block_lines_def)
next
  case True
  with assms obtain txs where t: "get_prop block ''transactions'' = JArray txs"
    "list_all (\<lambda>tx. tx \<noteq> JUndefined \<and> tx \<noteq> JNull) txs"
    by (cases "get_prop block ''transactions''") (auto simp: well_formed_def)
  then show ?thesis using assms(1) True
    by (simp add: extract_addresses_def block_lines_def log_txs_objects)
qed

lemma main_loop_well_formed:
  "list_all well_formed (resolved env i e s) \<Longrightarrow>
     fst (main_loop env i e s) = Completed
     \<and> fst (snd (main_loop env i e s)) = concat (map block_lines (resolved env i e s))"
proof (induction "nat (e + 1 - i)" arbitrary: i s)
  case 0
  then have ni: "\<not> i \<le> e" by simp
  then have "main_loop env i e s = (Completed, [], s)" by (subst main_loop.simps) simp
  moreover have "resolved env i e s = []" using ni by (subst resolved.simps) simp
  ultimately show ?case by simp
next
  case (Suc m)
  then have ie: "i \<le> e" and m: "m = nat (e + 1 - (i + 1))" by simp_all
  obtain block s1 where g: "getBlock env i s = (block, s1)" by (cases "getBlock env i s")
  have r: "resolved env i e s = block # resolved env (i + 1) e s1"
    using ie g by (subst resolved.simps) simp
  with Suc.prems have wf: "well_formed block"
    and rest: "list_all well_formed (resolved env (i + 1) e s1)" by simp_all
  have ih: "fst (main_loop env (i + 1) e s1) = Completed
        \<and> fst (snd (main_loop env (i + 1) e s1)) = concat (map block_lines (resolved env (i + 1) e s1))"
    by (rule Suc.hyps(1) [OF m rest])
  show ?case
  proof (cases "truthy block")
    case False
    then have "main_loop env i e s = main_loop env (i + 1) e s1"
      using main_loop_skip [OF ie g] by simp
    moreover have "block_lines block = []" using False by (simp add: block_lines_def)
    ultimately show ?thesis using ih by (simp add: r)
  next
    case tb: True
    have ex: "extract_addresses block = (block_lines block, True)"
      by (rule extract_well_formed [OF tb wf])
    have "main_loop env i e s =
        (case main_loop env (i + 1) e s1 of (oc, rest, s2) \<Rightarrow> (oc, block_lines block @ rest, s2))"
      using ie g tb ex by (subst main_loop.simps) simp
    then show ?thesis using ih by (simp add: r split_beta)
  qed
qed

lemma length_resolved: "length (resolved env i e s) = nat (e + 1 - i)"
proof (induction "nat (e + 1 - i)" arbitrary: i s)
  case 0
  then show ?case by (subst resolved.simps) simp
next
  case (Suc m)
  then have ie: "i \<le> e" and m: "m = nat (e + 1 - (i + 1))" by simp_all
  show ?case using Suc.hyps(1) [OF m] ie by (subst resolved.simps) simp
qed


text \<open>
  C8. Extraction order. For a block whose \<open>transactions\<close> is an array of objects the
  extraction prints, transaction by transaction in the given order, the sender and then
  the recipient when present, with no deduplication. Over a range whose blocks are all
  well formed, \<open>main\<close> completes and the address stream is the concatenation of the
  lines of the blocks in ascending block number, one \<open>getBlock\<close> call per number.
\<close>

theorem extraction_order:
  "(truthy block \<and> get_prop block ''transactions'' = JArray txs
      \<and> list_all (\<lambda>tx. tx \<noteq> JUndefined \<and> tx \<noteq> JNull) txs \<longrightarrow>
        extract_addresses block = (concat (map tx_lines txs), True))
   \<and> tx_lines tx = get_prop tx ''from'' # (if truthy (get_prop tx ''to'') then [get_prop tx ''to''] else [])
   \<and> (list_all well_formed (resolved env i e s) \<longrightarrow>
        fst (main_loop env i e s) = Completed
        \<and> fst (snd (main_loop env i e s)) = concat (map block_lines (resolved env i e s)))
   \<and> length (resolved env i e s) = nat (e + 1 - i)
   \<and> (i \<le> e \<longrightarrow> resolved env i e s
          = fst (getBlock env i s) # resolved env (i + 1) e (snd (getBlock env i s)))"
proof -
  have a: "truthy block \<and> get_prop block ''transactions'' = JArray txs
      \<and> list_all (\<lambda>tx. tx \<noteq> JUndefined \<and> tx \<noteq> JNull) txs \<longrightarrow>
        extract_addresses block = (concat (map tx_lines txs), True)"
    by (simp add: extract_addresses_def log_txs_objects)
  have b: "i \<le> e \<longrightarrow> resolved env i e s
          = fst (getBlock env i s) # resolved env (i + 1) e (snd (getBlock env i s))"
    by (subst resolved.simps) simp
  show ?thesis
    using a b main_loop_well_formed [of env i e s] length_resolved [of env i e s]
    by (simp add: tx_lines_def)
qed

text \<open>
  C10 (as amended). When \<open>getBlock\<close> returns a falsy value (\<open>null\<close> in particular), or a
  value whose \<open>transactions\<close> property is absent or falsy, the loop prints no line for
  that block and goes on with the next block number.
\<close>

theorem extraction_skips:
  "i \<le> e \<and> getBlock env i s = (block, s1)
     \<and> (\<not> truthy block \<or> \<not> truthy (get_prop block ''transactions'')) \<longrightarrow>
   main_loop env i e s = main_loop env (i + 1) e s1"
  using main_loop_skip [of i e env s block s1] by blast









section \<open>Worked runs\<close>

text \<open>
  Concrete runs on which the theorems above are exercised. \<open>doc_of\<close> is the JSON document
  of a value. \<open>demo_env\<close> is a run whose cache directory could not be set up and whose
  provider answers \<open>null\<close>; the other environments change one part of it. \<open>fresh\<close> is the
  state at the start of a run.
\<close>

definition doc_of :: "jsval \<Rightarrow> json" where
  "doc_of x = (case SerializeJSONProperty [] x of Some d \<Rightarrow> d | None \<Rightarrow> JsonNull)"

definition demo_env :: env where
  "demo_env = \<lparr>CACHE_DIR = ''/cache/ethereum'', ready = False, zstdAvailable = False,
     scan = (\<lambda>t. None), zstd_compress = (\<lambda>t. None), zstd_decompress = (\<lambda>t. None),
     provider = (\<lambda>k n. Returned JNull), head_block = Some 500, MM_API_KEY = Some ''key'',
     mkdir_fails = (\<lambda>p. False), read_fails = (\<lambda>p. False), write_fails = (\<lambda>p. False)\<rparr>"

definition fresh :: state where
  "fresh = \<lparr>memCache = Map.empty, files = Map.empty, dirs = {''/cache/ethereum''},
     calls = 0, trace = []\<rparr>"

definition block_a :: jsval where
  "block_a = example_block 100 [example_tx ''0xaa'' (JStr ''0xbb'')]"

lemma stringify_doc_of:
  "marker_free x \<Longrightarrow> x \<noteq> JUndefined \<Longrightarrow> JSON_stringify json_text x = Some (json_text (doc_of x))"
  using roundtrip_walk(1) [of x "[]"] by (auto simp: JSON_stringify_def doc_of_def)

lemma stored_decodes:
  "marker_free x \<Longrightarrow> x \<noteq> JUndefined \<Longrightarrow>
     JSON_parse (scan_only (doc_of x)) (json_text (doc_of x)) = Some (as_persisted x)"
  using roundtrip_walk(1) [of x "[]"] by (auto simp: JSON_parse_def doc_of_def scan_only_def)

lemma block_a_facts:
  "marker_free block_a" "block_a \<noteq> JUndefined" "as_persisted block_a = block_a"
  "truthy block_a" "truthy (get_prop block_a ''transactions'')"
  by (simp_all add: block_a_def example_block_def example_tx_def)

lemma demo_paths:
  "shard_dir demo_env 100 = ''/cache/ethereum/0''"
  "compressed (shard_paths demo_env 100) = ''/cache/ethereum/0/block-100.json.zst''"
  "legacy (shard_paths demo_env 100) = ''/cache/ethereum/0/block-100.json''"
  by (simp_all add: shard_paths_def shard_dir_def demo_env_def number_toString_def bigint_toString_def
      dec_digits_eval digit_char_def)

lemma getBlock_all_failed:
  assumes "memCache s n = None"
    and "disk_entry env s n = None"
    and "classify (provider env (calls s) n) = Some c0"
    and "classify (provider env (Suc (calls s)) n) = Some c1"
    and "classify (provider env (Suc (Suc (calls s))) n) = Some c2"
  shows "getBlock env n s =
    (JNull, failed_attempt n c2 2 (failed_attempt n c1 1 (failed_attempt n c0 0 (after_probe env n s))))"
proof -
  have "getBlock env n s = fetch env n 0 (after_probe env n s)"
    by (simp add: getBlock_miss assms(1,2))
  then show ?thesis using fetch_all_failed [of env "after_probe env n s" n c0 c1 c2] assms(3-5)
    by simp
qed

lemma getBlock_fetched:
  assumes "memCache s n = None" and "\<not> ready env"
    and "provider env (calls s) n = Returned block"
    and "truthy block" and "truthy (get_prop block ''transactions'')"
  shows "getBlock env n s =
    (block, (emit (GetBlock n) ((after_probe env n s)\<lparr>calls := Suc (calls s)\<rparr>))
              \<lparr>memCache := (memCache s)(n \<mapsto> block)\<rparr>)"
proof -
  have de: "disk_entry env s n = None" using assms(2) by (simp add: disk_entry_def)
  have g: "getBlock env n s = fetch env n 0 (after_probe env n s)"
    by (simp add: getBlock_miss assms(1) de)
  have mc: "memCache (after_probe env n s) = memCache s"
    by (simp add: after_probe_memCache de)
  show ?thesis
    using fetch_success [of 0 env "after_probe env n s" n block] assms(2-5)
    by (simp add: g mc Let_def)
qed


text \<open>A provider that rejects every call with status 429.\<close>

definition limited_env :: env where
  "limited_env = demo_env\<lparr>provider :=
     (\<lambda>k n. Rejected \<lparr>statusCode = Some 429, message = ''Too Many Requests''\<rparr>)\<rparr>"

lemma demo_env_simps [simp]:
  "ready demo_env = False" "zstdAvailable demo_env = False"
  "provider demo_env k n = Returned JNull" "head_block demo_env = Some 500"
  "MM_API_KEY demo_env = Some ''key''" "mkdir_fails demo_env p = False"
  "read_fails demo_env p = False" "write_fails demo_env p = False"
  "CACHE_DIR demo_env = ''/cache/ethereum''" "scan demo_env t = None"
  by (simp_all add: demo_env_def)

lemma fresh_simps [simp]:
  "memCache fresh n = None" "files fresh p = None" "dirs fresh = {''/cache/ethereum''}"
  "calls fresh = 0" "trace fresh = []"
  by (simp_all add: fresh_def)

lemma limited_env_simps [simp]:
  "ready limited_env = False"
  "classify (provider limited_env k n) = Some RateLimited"
  by (simp_all add: limited_env_def rate_limited_def)


theorem backoff_per_attempt_witness:
  "(0::nat) < 3 \<and> classify (provider limited_env (calls fresh) 100) = Some RateLimited
   \<and> fetch limited_env 100 0 fresh = fetch limited_env 100 (Suc 0) (failed_attempt 100 RateLimited 0 fresh)
   \<and> trace (failed_attempt 100 RateLimited 0 fresh) = [GetBlock 100, Sleep 5000, Sleep 1000]
   \<and> (1::nat) < 3 \<and> classify (provider demo_env (calls fresh) 100) = Some EmptyResult
   \<and> backoff EmptyResult 1 = [4000]"
  using backoff_per_attempt [of 0 limited_env fresh 100 RateLimited]
    backoff_per_attempt [of 1 demo_env fresh 100 EmptyResult]
  by simp

text \<open>
  C4 as stated fails. After an empty or invalid answer the first delay is 2s, not 1s: the
  loop adds one to \<open>attempts\<close> before it computes the delay. After a rejection with
  status 429 two delays follow, 5s and then 1s, not one.
\<close>

theorem backoff_table_counterexample:
  "trace (snd (fetch demo_env 100 0 fresh))
     = [GetBlock 100, Sleep 2000, GetBlock 100, Sleep 4000, GetBlock 100, Sleep 8000]
   \<and> spec_backoff EmptyResult 0 = [1000]
   \<and> trace (snd (fetch limited_env 100 0 fresh))
     = [GetBlock 100, Sleep 5000, Sleep 1000, GetBlock 100, Sleep 10000, Sleep 2000,
        GetBlock 100, Sleep 20000, Sleep 4000]
   \<and> spec_backoff RateLimited 0 = [5000]"
proof -
  have "fetch demo_env 100 0 fresh = (JNull, failed_attempt 100 EmptyResult 2
      (failed_attempt 100 EmptyResult 1 (failed_attempt 100 EmptyResult 0 fresh)))"
    by (rule fetch_all_failed) simp_all
  moreover have "fetch limited_env 100 0 fresh = (JNull, failed_attempt 100 RateLimited 2
      (failed_attempt 100 RateLimited 1 (failed_attempt 100 RateLimited 0 fresh)))"
    by (rule fetch_all_failed) simp_all
  ultimately show ?thesis by simp
qed

text \<open>A run with the cache directory ready, no compressor, and the same provider.\<close>

definition ready_env :: env where
  "ready_env = demo_env\<lparr>ready := True\<rparr>"

lemma ready_env_simps [simp]:
  "ready ready_env = True" "zstdAvailable ready_env = False"
  "provider ready_env k n = Returned JNull" "mkdir_fails ready_env p = False"
  "read_fails ready_env p = False" "write_fails ready_env p = False"
  "CACHE_DIR ready_env = ''/cache/ethereum''" "scan ready_env t = None"
  by (simp_all add: ready_env_def demo_env_def)

lemma ready_paths:
  "shard_dir ready_env 100 = ''/cache/ethereum/0''"
  "compressed (shard_paths ready_env 100) = ''/cache/ethereum/0/block-100.json.zst''"
  "legacy (shard_paths ready_env 100) = ''/cache/ethereum/0/block-100.json''"
  by (simp_all add: shard_paths_def shard_dir_def number_toString_def bigint_toString_def
      dec_digits_eval digit_char_def)

text \<open>
  C9 as stated fails. A call that misses every tier and writes nothing creates the shard
  directory: the trace holds \<open>mkdirSync\<close> and no \<open>writeFileSync\<close>.
\<close>

theorem lazy_sharding_counterexample:
  "memCache fresh 100 = None
   \<and> ''/cache/ethereum/0'' \<notin> dirs fresh
   \<and> fst (getBlock ready_env 100 fresh) = JNull
   \<and> ''/cache/ethereum/0'' \<in> dirs (snd (getBlock ready_env 100 fresh))
   \<and> trace (snd (getBlock ready_env 100 fresh))
       = [ExistsSync ''/cache/ethereum/0'', MkdirSync ''/cache/ethereum/0'',
          ExistsSync ''/cache/ethereum/0/block-100.json'',
          GetBlock 100, Sleep 2000, GetBlock 100, Sleep 4000, GetBlock 100, Sleep 8000]"
proof -
  have de: "disk_entry ready_env fresh 100 = None"
    by (simp add: disk_entry_def compressed_entry_def legacy_entry_def decode_legacy_def)
  have "getBlock ready_env 100 fresh = (JNull, failed_attempt 100 EmptyResult 2
      (failed_attempt 100 EmptyResult 1 (failed_attempt 100 EmptyResult 0 (after_probe ready_env 100 fresh))))"
    by (rule getBlock_all_failed) (simp_all add: de)
  then show ?thesis
    by (simp add: ready_paths after_probe_def Let_def probe_events_def disk_events_def)
qed

text \<open>A state whose memory tier holds block 100.\<close>

definition warm :: state where
  "warm = fresh\<lparr>memCache := [100 \<mapsto> block_a]\<rparr>"

lemma warm_simps [simp]:
  "memCache warm 100 = Some block_a" "dirs warm = {''/cache/ethereum''}" "trace warm = []"
  "files warm p = None" "calls warm = 0"
  by (simp_all add: warm_def fresh_def)

theorem shard_directory_creation_witness:
  "memCache warm 100 = Some block_a
   \<and> dirs (snd (getBlock ready_env 100 warm)) = {''/cache/ethereum''}
   \<and> memCache fresh 100 = None
   \<and> dirs (snd (getBlock ready_env 100 fresh)) = {''/cache/ethereum/0'', ''/cache/ethereum''}"
  using shard_directory_creation [of warm 100 block_a ready_env]
    shard_directory_creation [of fresh 100 block_a ready_env]
  by (simp add: ready_paths)


text \<open>
  Runs that find block 100 on disk, compressed or not, and a run without disk cache whose
  provider serves the block. The compressor of the example puts a tag in front.
\<close>

definition zstd_env :: env where
  "zstd_env = demo_env\<lparr>ready := True, zstdAvailable := True,
     scan := scan_only (doc_of block_a),
     zstd_compress := (\<lambda>t. Some (''zstd:'' @ t)),
     zstd_decompress := (\<lambda>b. if take 5 b = ''zstd:'' then Some (drop 5 b) else None)\<rparr>"

definition on_disk_compressed :: state where
  "on_disk_compressed = fresh\<lparr>files :=
     [''/cache/ethereum/0/block-100.json.zst'' \<mapsto> ''zstd:'' @ json_text (doc_of block_a)]\<rparr>"

definition legacy_env :: env where
  "legacy_env = demo_env\<lparr>ready := True, scan := scan_only (doc_of block_a)\<rparr>"

definition on_disk_legacy :: state where
  "on_disk_legacy = fresh\<lparr>files :=
     [''/cache/ethereum/0/block-100.json'' \<mapsto> json_text (doc_of block_a)]\<rparr>"

definition serving_env :: env where
  "serving_env = demo_env\<lparr>provider := (\<lambda>k n. Returned block_a)\<rparr>"

lemma paths_100:
  "CACHE_DIR env = ''/cache/ethereum'' \<Longrightarrow> shard_dir env 100 = ''/cache/ethereum/0''"
  "CACHE_DIR env = ''/cache/ethereum'' \<Longrightarrow>
     compressed (shard_paths env 100) = ''/cache/ethereum/0/block-100.json.zst''"
  "CACHE_DIR env = ''/cache/ethereum'' \<Longrightarrow>
     legacy (shard_paths env 100) = ''/cache/ethereum/0/block-100.json''"
  by (simp_all add: shard_paths_def shard_dir_def number_toString_def bigint_toString_def
      dec_digits_eval digit_char_def)

lemma compressed_on_disk:
  "compressed_entry zstd_env on_disk_compressed 100 = Some block_a"
proof -
  have "CACHE_DIR zstd_env = ''/cache/ethereum''" by (simp add: zstd_env_def demo_env_def)
  then show ?thesis
    using stored_decodes [OF block_a_facts(1,2)]
    by (simp add: compressed_entry_def decode_compressed_def paths_100 zstd_env_def demo_env_def
        on_disk_compressed_def fresh_def block_a_facts)
qed

lemma legacy_on_disk:
  "legacy_entry legacy_env on_disk_legacy 100 = Some block_a"
  "compressed_entry legacy_env on_disk_legacy 100 = None"
proof -
  have "CACHE_DIR legacy_env = ''/cache/ethereum''" by (simp add: legacy_env_def demo_env_def)
  then show "legacy_entry legacy_env on_disk_legacy 100 = Some block_a"
    using stored_decodes [OF block_a_facts(1,2)]
    by (simp add: legacy_entry_def decode_legacy_def paths_100 legacy_env_def demo_env_def
        on_disk_legacy_def fresh_def block_a_facts)
  show "compressed_entry legacy_env on_disk_legacy 100 = None"
    by (simp add: compressed_entry_def legacy_env_def demo_env_def)
qed

lemma serving_first:
  "getBlock serving_env 100 fresh =
     (block_a, (emit (GetBlock 100) ((after_probe serving_env 100 fresh)\<lparr>calls := Suc 0\<rparr>))
                 \<lparr>memCache := (memCache fresh)(100 \<mapsto> block_a)\<rparr>)"
  using getBlock_fetched [of fresh 100 serving_env block_a]
  by (simp add: serving_env_def demo_env_def block_a_facts)

theorem cache_tiers_witness:
  "memCache warm 100 = Some block_a
   \<and> getBlock ready_env 100 warm = (block_a, warm)
   \<and> memCache on_disk_compressed 100 = None \<and> ready zstd_env
   \<and> compressed_entry zstd_env on_disk_compressed 100 = Some block_a
   \<and> fst (getBlock zstd_env 100 on_disk_compressed) = block_a
   \<and> calls (snd (getBlock zstd_env 100 on_disk_compressed)) = calls on_disk_compressed
   \<and> memCache on_disk_legacy 100 = None \<and> ready legacy_env
   \<and> compressed_entry legacy_env on_disk_legacy 100 = None
   \<and> legacy_entry legacy_env on_disk_legacy 100 = Some block_a
   \<and> fst (getBlock legacy_env 100 on_disk_legacy) = block_a
   \<and> calls (snd (getBlock legacy_env 100 on_disk_legacy)) = calls on_disk_legacy
   \<and> remote_calls (trace (snd (getBlock serving_env 100 fresh))) = [GetBlock 100]
   \<and> remote_calls (trace fresh) = []
   \<and> memCache fresh 100 = None \<and> \<not> ready serving_env"
proof -
  have m: "memCache on_disk_compressed 100 = None" "memCache on_disk_legacy 100 = None"
    by (simp_all add: on_disk_compressed_def on_disk_legacy_def fresh_def)
  have r: "ready zstd_env" "ready legacy_env" "\<not> ready serving_env"
    by (simp_all add: zstd_env_def legacy_env_def serving_env_def demo_env_def)
  have s: "remote_calls (trace (snd (getBlock serving_env 100 fresh))) = [GetBlock 100]"
    by (simp add: serving_first)
  from cache_tiers [of warm 100 block_a ready_env]
    cache_tiers [of on_disk_compressed 100 block_a zstd_env]
    cache_tiers [of on_disk_legacy 100 block_a legacy_env]
    cache_tiers [of fresh 100 block_a serving_env]
  show ?thesis using m r s compressed_on_disk legacy_on_disk by simp
qed


text \<open>A run that finds an entry it cannot parse and fetches the block again.\<close>

definition refetch_env :: env where
  "refetch_env = demo_env\<lparr>ready := True, provider := (\<lambda>k n. Returned block_a)\<rparr>"

definition corrupt_legacy :: state where
  "corrupt_legacy = fresh\<lparr>files := [''/cache/ethereum/0/block-100.json'' \<mapsto> ''garbage'']\<rparr>"

lemma refetch_env_simps [simp]:
  "ready refetch_env = True" "zstdAvailable refetch_env = False"
  "provider refetch_env k n = Returned block_a" "mkdir_fails refetch_env p = False"
  "read_fails refetch_env p = False" "write_fails refetch_env p = False"
  "CACHE_DIR refetch_env = ''/cache/ethereum''" "scan refetch_env t = None"
  by (simp_all add: refetch_env_def demo_env_def)

lemma corrupt_legacy_simps [simp]:
  "memCache corrupt_legacy n = None"
  "files corrupt_legacy = [''/cache/ethereum/0/block-100.json'' \<mapsto> ''garbage'']"
  "dirs corrupt_legacy = {''/cache/ethereum''}" "calls corrupt_legacy = 0" "trace corrupt_legacy = []"
  by (simp_all add: corrupt_legacy_def fresh_def)

lemma dirname_legacy: "dirname ''/cache/ethereum/0/block-100.json'' = ''/cache/ethereum/0''"
  by (simp add: dirname_def)

lemma text_not_garbage: "json_text (doc_of block_a) \<noteq> ''garbage''"
  by (simp add: doc_of_def block_a_def example_block_def Serialize_simps)

lemma refetch_overwrites:
  "files (snd (getBlock refetch_env 100 corrupt_legacy)) ''/cache/ethereum/0/block-100.json''
     = Some (json_text (doc_of block_a))"
proof -
  have de: "disk_entry refetch_env corrupt_legacy 100 = None"
    by (simp add: disk_entry_def compressed_entry_def legacy_entry_def decode_legacy_def
        paths_100 JSON_parse_def)
  have g: "getBlock refetch_env 100 corrupt_legacy = fetch refetch_env 100 0 (after_probe refetch_env 100 corrupt_legacy)"
    by (simp add: getBlock_miss de)
  have f: "fetch refetch_env 100 0 (after_probe refetch_env 100 corrupt_legacy) =
    (block_a, write_through refetch_env 100 block_a
       ((emit (GetBlock 100) ((after_probe refetch_env 100 corrupt_legacy)\<lparr>calls := Suc 0\<rparr>))
          \<lparr>memCache := (memCache (after_probe refetch_env 100 corrupt_legacy))(100 \<mapsto> block_a)\<rparr>))"
    using fetch_success [of 0 refetch_env "after_probe refetch_env 100 corrupt_legacy" 100 block_a]
    by (simp add: block_a_facts Let_def)
  show ?thesis
    by (simp add: g f write_through_def stringify_doc_of [OF block_a_facts(1,2)] split_beta Let_def
        paths_100 writeFileSync_files dirname_legacy)
qed

text \<open>
  C6 as stated fails. The uncompressed entry of block 100 exists and does not parse; the
  block is fetched again and the write after the fetch replaces the content of the entry.
\<close>

theorem append_only_counterexample:
  "files corrupt_legacy ''/cache/ethereum/0/block-100.json'' = Some ''garbage''
   \<and> legacy (shard_paths refetch_env 100) = ''/cache/ethereum/0/block-100.json''
   \<and> legacy_entry refetch_env corrupt_legacy 100 = None
   \<and> fst (getBlock refetch_env 100 corrupt_legacy) = block_a
   \<and> files (snd (getBlock refetch_env 100 corrupt_legacy)) ''/cache/ethereum/0/block-100.json''
       = Some (json_text (doc_of block_a))
   \<and> json_text (doc_of block_a) \<noteq> ''garbage''"
proof -
  have de: "disk_entry refetch_env corrupt_legacy 100 = None"
    by (simp add: disk_entry_def compressed_entry_def legacy_entry_def decode_legacy_def
        paths_100 JSON_parse_def)
  have g: "getBlock refetch_env 100 corrupt_legacy = fetch refetch_env 100 0 (after_probe refetch_env 100 corrupt_legacy)"
    by (simp add: getBlock_miss de)
  have "fst (getBlock refetch_env 100 corrupt_legacy) = block_a"
    using fetch_success [of 0 refetch_env "after_probe refetch_env 100 corrupt_legacy" 100 block_a]
    by (simp add: g block_a_facts Let_def)
  then show ?thesis
    using refetch_overwrites text_not_garbage
    by (simp add: paths_100 legacy_entry_def decode_legacy_def JSON_parse_def)
qed

theorem disk_entries_kept_witness:
  "files corrupt_legacy ''/cache/ethereum/0/block-100.json'' \<noteq> None
   \<and> files (snd (getBlock refetch_env 100 corrupt_legacy)) ''/cache/ethereum/0/block-100.json'' \<noteq> None
   \<and> files (snd (getBlock refetch_env 100 corrupt_legacy)) ''/cache/ethereum/0/block-100.json''
        \<noteq> files corrupt_legacy ''/cache/ethereum/0/block-100.json''
   \<and> memCache corrupt_legacy 100 = None \<and> ready refetch_env
   \<and> compressed_entry refetch_env corrupt_legacy 100 = None
   \<and> legacy_entry refetch_env corrupt_legacy 100 = None
   \<and> ''/cache/ethereum/0/block-100.json'' = legacy (shard_paths refetch_env 100)"
proof -
  have ch: "files (snd (getBlock refetch_env 100 corrupt_legacy)) ''/cache/ethereum/0/block-100.json''
        \<noteq> files corrupt_legacy ''/cache/ethereum/0/block-100.json''"
    using refetch_overwrites text_not_garbage by simp
  from disk_entries_kept [of corrupt_legacy "''/cache/ethereum/0/block-100.json''" refetch_env 100] ch
  show ?thesis by (simp add: paths_100)
qed


text \<open>
  The scenario of the range 100-102: blocks 100 and 102 hold one transaction with sender
  and recipient, block 101 holds none.
\<close>

definition transfer :: "string \<Rightarrow> string \<Rightarrow> jsval" where
  "transfer sender recipient = JObject [(''from'', JStr sender), (''to'', JStr recipient)]"

definition scenario_block :: "int \<Rightarrow> jsval" where
  "scenario_block n =
     (if n = 100 then JObject [(''transactions'', JArray [transfer ''0xa100'' ''0xb100''])]
      else if n = 102 then JObject [(''transactions'', JArray [transfer ''0xa102'' ''0xb102''])]
      else JObject [(''transactions'', JArray [])])"

definition scenario_env :: env where
  "scenario_env = demo_env\<lparr>provider := (\<lambda>k n. Returned (scenario_block n))\<rparr>"

lemma scenario_env_simps [simp]:
  "ready scenario_env = False" "provider scenario_env k n = Returned (scenario_block n)"
  "head_block scenario_env = Some 500" "MM_API_KEY scenario_env = Some ''key''"
  by (simp_all add: scenario_env_def demo_env_def)

lemma scenario_block_truthy [simp]:
  "truthy (scenario_block n)" "truthy (get_prop (scenario_block n) ''transactions'')"
  by (simp_all add: scenario_block_def)

lemma scenario_getBlock:
  "memCache s n = None \<Longrightarrow>
     getBlock scenario_env n s =
       (scenario_block n,
        (emit (GetBlock n) ((after_probe scenario_env n s)\<lparr>calls := Suc (calls s)\<rparr>))
          \<lparr>memCache := (memCache s)(n \<mapsto> scenario_block n)\<rparr>)"
  by (rule getBlock_fetched) simp_all

lemma scenario_resolved:
  "resolved scenario_env 100 102 (emit GetBlockNumber fresh)
     = [scenario_block 100, scenario_block 101, scenario_block 102]"
  by (simp add: resolved.simps [of _ 100] resolved.simps [of _ 101] resolved.simps [of _ 102]
      resolved.simps [of _ 103] scenario_getBlock)

lemma scenario_lines:
  "block_lines (scenario_block 100) = [JStr ''0xa100'', JStr ''0xb100'']"
  "block_lines (scenario_block 101) = []"
  "block_lines (scenario_block 102) = [JStr ''0xa102'', JStr ''0xb102'']"
  "well_formed (scenario_block 100)" "well_formed (scenario_block 101)" "well_formed (scenario_block 102)"
  by (simp_all add: block_lines_def well_formed_def scenario_block_def transfer_def tx_lines_def)

lemma scenario_range:
  "parse_range ''100-102'' = Continue (Some (Num 100), Some (Num 102))"
  by (simp add: parse_range_def check_bounds_def parseInt_def toLowerCase_def toLowerCase_char_def
      trim_start_def is_ws_def is_digit_def digit_val_def digits_value_def Let_def)

lemma scenario_program:
  "program scenario_env [''node'', ''infura-extract.js'', ''ethereum'', ''100-102''] fresh
     = main_loop scenario_env 100 102 (emit GetBlockNumber fresh)"
  by (simp add: program_def network_known_def NETWORKS_def toLowerCase_def toLowerCase_char_def
      scenario_range main_def Let_def)

theorem extraction_order_witness:
  "truthy (scenario_block 100)
   \<and> get_prop (scenario_block 100) ''transactions'' = JArray [transfer ''0xa100'' ''0xb100'']
   \<and> extract_addresses (scenario_block 100) = ([JStr ''0xa100'', JStr ''0xb100''], True)
   \<and> list_all well_formed (resolved scenario_env 100 102 (emit GetBlockNumber fresh))
   \<and> resolved scenario_env 100 102 (emit GetBlockNumber fresh)
       = [scenario_block 100, scenario_block 101, scenario_block 102]
   \<and> fst (program scenario_env [''node'', ''infura-extract.js'', ''ethereum'', ''100-102''] fresh)
       = Completed
   \<and> fst (snd (program scenario_env [''node'', ''infura-extract.js'', ''ethereum'', ''100-102''] fresh))
       = [JStr ''0xa100'', JStr ''0xb100'', JStr ''0xa102'', JStr ''0xb102'']"
proof -
  have t: "get_prop (scenario_block 100) ''transactions'' = JArray [transfer ''0xa100'' ''0xb100'']"
    by (simp add: scenario_block_def)
  have o: "list_all (\<lambda>tx. tx \<noteq> JUndefined \<and> tx \<noteq> JNull) [transfer ''0xa100'' ''0xb100'']"
    by (simp add: transfer_def)
  have l: "concat (map tx_lines [transfer ''0xa100'' ''0xb100'']) = [JStr ''0xa100'', JStr ''0xb100'']"
    by (simp add: tx_lines_def transfer_def)
  have wf: "list_all well_formed (resolved scenario_env 100 102 (emit GetBlockNumber fresh))"
    by (simp add: scenario_resolved scenario_lines)
  note th = extraction_order [of "scenario_block 100" "[transfer ''0xa100'' ''0xb100'']" JNull
      scenario_env 100 102 "emit GetBlockNumber fresh"]
  from th t o have x: "extract_addresses (scenario_block 100)
      = (concat (map tx_lines [transfer ''0xa100'' ''0xb100'']), True)"
    using scenario_block_truthy(1) [of 100] by blast
  from th wf have y: "fst (main_loop scenario_env 100 102 (emit GetBlockNumber fresh)) = Completed
      \<and> fst (snd (main_loop scenario_env 100 102 (emit GetBlockNumber fresh)))
          = concat (map block_lines (resolved scenario_env 100 102 (emit GetBlockNumber fresh)))"
    by blast
  show ?thesis
    using t wf x y l by (simp add: scenario_resolved scenario_lines scenario_program)
qed

text \<open>Runs that find on disk an entry of block 100 with the given document: a record
  with no \<open>transactions\<close>, and a record whose \<open>transactions\<close> is \<open>true\<close>.\<close>

definition no_tx_doc :: json where
  "no_tx_doc = JsonObj [(''hash'', JsonStr ''0x01'')]"

definition bad_tx_doc :: json where
  "bad_tx_doc = JsonObj [(''transactions'', JsonBool True)]"

definition disk_env :: "json \<Rightarrow> env" where
  "disk_env d = demo_env\<lparr>ready := True, scan := scan_only d\<rparr>"

definition on_disk :: "json \<Rightarrow> state" where
  "on_disk d = fresh\<lparr>files := [''/cache/ethereum/0/block-100.json'' \<mapsto> json_text d]\<rparr>"

lemma disk_env_simps [simp]:
  "ready (disk_env d) = True" "zstdAvailable (disk_env d) = False"
  "read_fails (disk_env d) p = False" "CACHE_DIR (disk_env d) = ''/cache/ethereum''"
  "scan (disk_env d) = scan_only d"
  by (simp_all add: disk_env_def demo_env_def)

lemma on_disk_simps [simp]:
  "memCache (on_disk d) n = None"
  "files (on_disk d) = [''/cache/ethereum/0/block-100.json'' \<mapsto> json_text d]"
  by (simp_all add: on_disk_def fresh_def)

lemma getBlock_on_disk:
  "InternalizeJSONProperty [] d = Some block \<Longrightarrow>
     getBlock (disk_env d) 100 (on_disk d) = (block, after_probe (disk_env d) 100 (on_disk d))"
  by (simp add: getBlock_miss disk_entry_def compressed_entry_def legacy_entry_def decode_legacy_def
      paths_100 JSON_parse_def scan_only_def)

theorem extraction_skips_witness:
  "(100::int) \<le> 102
   \<and> getBlock limited_env 100 fresh = (JNull, snd (getBlock limited_env 100 fresh))
   \<and> \<not> truthy JNull
   \<and> main_loop limited_env 100 102 fresh
        = main_loop limited_env 101 102 (snd (getBlock limited_env 100 fresh))
   \<and> getBlock (disk_env no_tx_doc) 100 (on_disk no_tx_doc)
        = (JObject [(''hash'', JStr ''0x01'')], after_probe (disk_env no_tx_doc) 100 (on_disk no_tx_doc))
   \<and> \<not> truthy (get_prop (JObject [(''hash'', JStr ''0x01'')]) ''transactions'')
   \<and> main_loop (disk_env no_tx_doc) 100 102 (on_disk no_tx_doc)
        = main_loop (disk_env no_tx_doc) 101 102 (after_probe (disk_env no_tx_doc) 100 (on_disk no_tx_doc))"
proof -
  have "getBlock limited_env 100 fresh = (JNull, failed_attempt 100 RateLimited 2
      (failed_attempt 100 RateLimited 1 (failed_attempt 100 RateLimited 0 (after_probe limited_env 100 fresh))))"
    by (rule getBlock_all_failed) (simp_all add: disk_entry_def)
  then have a: "getBlock limited_env 100 fresh = (JNull, snd (getBlock limited_env 100 fresh))"
    by simp
  have "InternalizeJSONProperty [] no_tx_doc = Some (JObject [(''hash'', JStr ''0x01'')])"
    by (simp add: no_tx_doc_def reviver_def)
  then have b: "getBlock (disk_env no_tx_doc) 100 (on_disk no_tx_doc)
        = (JObject [(''hash'', JStr ''0x01'')], after_probe (disk_env no_tx_doc) 100 (on_disk no_tx_doc))"
    by (rule getBlock_on_disk)
  from extraction_skips [of 100 102 limited_env fresh JNull "snd (getBlock limited_env 100 fresh)"]
    extraction_skips [of 100 102 "disk_env no_tx_doc" "on_disk no_tx_doc"
      "JObject [(''hash'', JStr ''0x01'')]" "after_probe (disk_env no_tx_doc) 100 (on_disk no_tx_doc)"]
    a b
  show ?thesis by simp
qed

text \<open>
  C10 as stated fails. A disk entry that parses to \<open>{"transactions": true}\<close> is returned
  by \<open>getBlock\<close> as it is; the record has no transactions collection, the test
  \<open>if (block.transactions)\<close> passes, the \<open>for ... of\<close> loop throws a TypeError and \<open>main\<close>
  ends there, before the blocks 101 and 102.
\<close>

theorem extraction_total_counterexample:
  "scan_only bad_tx_doc (json_text bad_tx_doc) = Some bad_tx_doc
   \<and> fst (getBlock (disk_env bad_tx_doc) 100 (on_disk bad_tx_doc))
        = JObject [(''transactions'', JBool True)]
   \<and> fst (main_loop (disk_env bad_tx_doc) 100 102 (on_disk bad_tx_doc)) = Uncaught
   \<and> fst (snd (main_loop (disk_env bad_tx_doc) 100 102 (on_disk bad_tx_doc))) = []"
proof -
  have "InternalizeJSONProperty [] bad_tx_doc = Some (JObject [(''transactions'', JBool True)])"
    by (simp add: bad_tx_doc_def reviver_def)
  then have g: "getBlock (disk_env bad_tx_doc) 100 (on_disk bad_tx_doc)
        = (JObject [(''transactions'', JBool True)], after_probe (disk_env bad_tx_doc) 100 (on_disk bad_tx_doc))"
    by (rule getBlock_on_disk)
  have "main_loop (disk_env bad_tx_doc) 100 102 (on_disk bad_tx_doc)
     = (Uncaught, [], after_probe (disk_env bad_tx_doc) 100 (on_disk bad_tx_doc))"
    by (subst main_loop.simps) (simp add: g extract_addresses_def)
  then show ?thesis by (simp add: g scan_only_def)
qed









end
